theory Spec2Isabelle
  imports Main
begin

section \<open>DirectWriter: streaming a worksheet row by row\<close>

text \<open>
  A shallow embedding of the newest \<^verbatim>\<open>direct.go\<close> of the repository (the variant with
  \<^verbatim>\<open>Close\<close>, \<^verbatim>\<open>SetWait\<close>, \<^verbatim>\<open>buildHeader\<close> and \<^verbatim>\<open>tryFlush\<close>, the one
  \<^verbatim>\<open>direct_test.go\<close> exercises), together with the cell encoder of the oldest variant,
  \<^verbatim>\<open>src/direct.go\<close>, which differs in its style condition.

  Go's \<^verbatim>\<open>[]byte\<close> and \<^verbatim>\<open>string\<close> are byte sequences: \<^typ>\<open>string\<close>. Go's integers are
  values of \<^typ>\<open>int\<close>. The row counter \<^verbatim>\<open>rowCount\<close> is a Go \<^verbatim>\<open>int\<close> that \<^verbatim>\<open>AddRow\<close>
  increments on every call, and the increment wraps around at the width of \<^verbatim>\<open>int\<close> on the
  platform (32 or 64 bits): it is modelled with the wrap-around written out. Lengths of
  slices and strings are lengths of values held in memory, and \<^verbatim>\<open>bytesWritten\<close> counts bytes
  a sink has accepted; they are below the range of their types and are not wrapped.
\<close>

subsection \<open>Decimal rendering (\<^verbatim>\<open>strconv.AppendInt\<close>, base 10, and the \<^verbatim>\<open>%d\<close> verb)\<close>

definition digit :: "nat \<Rightarrow> char" where
  "digit n = ''0123456789'' ! n"

fun FormatUint :: "nat \<Rightarrow> string" where
  "FormatUint n = (if n < 10 then [digit n] else FormatUint (n div 10) @ [digit (n mod 10)])"

declare FormatUint.simps [simp del]

definition FormatInt :: "int \<Rightarrow> string" where
  "FormatInt i = (if i < 0 then CHR ''-'' # FormatUint (nat (- i)) else FormatUint (nat i))"

definition AppendInt :: "string \<Rightarrow> int \<Rightarrow> string" where
  "AppendInt dst i = dst @ FormatInt i"

text \<open>Reading a decimal numeral back; used only to show that the rendering is injective.\<close>

definition digit_val :: "char \<Rightarrow> nat" where
  "digit_val c = of_char c - 48"

definition ParseUint :: "string \<Rightarrow> nat" where
  "ParseUint s = foldl (\<lambda>a c. 10 * a + digit_val c) 0 s"

subsection \<open>Errors and outcomes\<close>

text \<open>
  The errors of the file are values. \<open>External\<close> carries an error produced by a collaborator
  outside the file (the value encoder, the row-attribute marshaller, the worksheet reader);
  \<open>SinkError\<close> is an error of a failed \<^verbatim>\<open>io.Writer.Write\<close>.
\<close>

datatype error =
    SheetIDNotFound
  | WaitModeAfterWrite
  | ColWidthAfterWrite
  | ErrColumnNumber
  | ErrColumnWidth
  | WriteToAfterFlush
  | SinkError
  | External string

text \<open>
  A call either returns, or never returns because it waits for a mutex that is held and
  that nobody will release (\<open>Blocked\<close>), or panics (\<open>Panic\<close>: an index out of range, closing
  a closed channel).
\<close>

datatype 'a result = Ok 'a | Blocked | Panic

subsection \<open>The sink (\<^verbatim>\<open>io.Writer\<close>)\<close>

text \<open>
  A writer is an object with state. It is modelled by the bytes it has accepted so far and by
  a script of the outcomes of its coming \<^verbatim>\<open>Write\<close> calls: \<open>None\<close> for a call that accepts
  the whole slice and returns a nil error, \<open>Some (k, e)\<close> for a call that accepts at most
  \<open>k\<close> bytes and returns the error \<open>e\<close>. When the script is exhausted every call succeeds.
  A successful call returns \<open>n = len(p)\<close>, as the contract of \<^verbatim>\<open>io.Writer\<close> demands.
\<close>

record sink =
  received :: string
  script :: "(nat \<times> error) option list"

definition sink_Write :: "sink \<Rightarrow> string \<Rightarrow> (nat \<times> error option) \<times> sink" where
  "sink_Write w p =
     (case script w of
        [] \<Rightarrow> ((length p, None), w\<lparr>received := received w @ p\<rparr>)
      | None # rest \<Rightarrow> ((length p, None), w\<lparr>received := received w @ p, script := rest\<rparr>)
      | Some (k, e) # rest \<Rightarrow>
          ((min k (length p), Some e),
           w\<lparr>received := received w @ take k p, script := rest\<rparr>))"

text \<open>A writer whose next \<open>k\<close> calls succeed, and one none of whose coming calls fails.\<close>

definition succeeds :: "nat \<Rightarrow> sink \<Rightarrow> bool" where
  "succeeds k w = list_all (\<lambda>x. x = None) (take k (script w))"

definition reliable :: "sink \<Rightarrow> bool" where
  "reliable w = list_all (\<lambda>x. x = None) (script w)"

subsection \<open>Cells\<close>

text \<open>
  \<^verbatim>\<open>Cell\<close> is the input unit; \<open>'v\<close> is the type of the \<^verbatim>\<open>interface{}\<close> value. \<^verbatim>\<open>xlsxC\<close> is
  the XML cell: its fields \<^verbatim>\<open>XMLSpace\<close> (an \<^verbatim>\<open>xml.Attr\<close> with \<^verbatim>\<open>Name.Local\<close> and
  \<^verbatim>\<open>Value\<close>), \<^verbatim>\<open>S\<close>, \<^verbatim>\<open>T\<close>, \<^verbatim>\<open>F\<close> (a pointer to an \<^verbatim>\<open>xlsxF\<close>, \<open>None\<close> for nil, else its
  \<^verbatim>\<open>Content\<close>) and \<^verbatim>\<open>V\<close> are prefixed with \<open>c\<close> here.
\<close>

record 'v Cell =
  StyleID :: int
  Formula :: string
  Value :: 'v

record xmlAttr =
  NameLocal :: string
  AttrValue :: string

record xlsxC =
  cXMLSpace :: xmlAttr
  cS :: int
  cT :: string
  cF :: "string option"
  cV :: string

subsection \<open>Collaborators outside the file\<close>

text \<open>
  Modelled from the spec: the constants \<^verbatim>\<open>XMLHeader\<close>, \<^verbatim>\<open>templateNamespaceIDMap\<close>,
  \<^verbatim>\<open>TotalColumns\<close> and \<^verbatim>\<open>MaxColumnWidth\<close>, and the functions \<^verbatim>\<open>bulkAppendFields\<close>,
  \<^verbatim>\<open>marshalRowAttrs\<close>, \<^verbatim>\<open>setCellValFunc\<close> and \<^verbatim>\<open>appendEscapedString\<close> are declared
  elsewhere in the package. They are parameters of the model, collected in one record,
  together with the platform's width of \<^verbatim>\<open>int\<close>:
  \<^item> \<open>intSize\<close> is the number of bits of Go's \<^verbatim>\<open>int\<close> (\<^verbatim>\<open>strconv.IntSize\<close>: 32 or 64);
  \<^item> \<open>bulkFields ws from to\<close> is the text \<^verbatim>\<open>bulkAppendFields(w, ws, from, to)\<close> writes to \<open>w\<close>
    (the "worksheet metadata sections" of the spec);
  \<^item> \<open>marshalRowAttrs opts\<close> is the attribute text of the row options, or an error;
  \<^item> \<open>setCellValFunc c v\<close> is the cell \<open>c\<close> after the value encoder has filled in its type
    tag, value text and whitespace attribute, or an error;
  \<^item> \<open>escaped s b\<close> is the XML-escaped text that \<^verbatim>\<open>appendEscapedString(dst, s, b)\<close> appends
    to \<open>dst\<close>;
  \<^item> \<open>widthTooLarge w\<close> is the comparison \<^verbatim>\<open>w > MaxColumnWidth\<close> on \<^verbatim>\<open>float64\<close>, and
    \<open>formatWidth w\<close> the rendering of \<open>w\<close> by the \<^verbatim>\<open>%f\<close> verb; \<open>'f\<close> stands for \<^verbatim>\<open>float64\<close>.
\<close>

record ('v, 'o, 'ws, 'f) externals =
  intSize :: nat
  XMLHeader :: string
  templateNamespaceIDMap :: string
  TotalColumns :: int
  bulkFields :: "'ws \<Rightarrow> int \<Rightarrow> int \<Rightarrow> string"
  marshalRowAttrs :: "'o list \<Rightarrow> error + string"
  setCellValFunc :: "xlsxC \<Rightarrow> 'v \<Rightarrow> error + xlsxC"
  escaped :: "string \<Rightarrow> bool \<Rightarrow> string"
  widthTooLarge :: "'f \<Rightarrow> bool"
  formatWidth :: "'f \<Rightarrow> string"

text \<open>
  Go's \<^verbatim>\<open>int\<close> is a two's-complement integer of \<open>intSize\<close> bits: \<open>wrapInt bits i\<close> is the
  value of that width that agrees with \<open>i\<close> modulo \<open>2 ^ bits\<close>, and \<open>incr X n\<close> is \<open>n\<close> after
  the statement \<^verbatim>\<open>n++\<close>.
\<close>

definition wrapInt :: "nat \<Rightarrow> int \<Rightarrow> int" where
  "wrapInt bits i = (i + 2 ^ (bits - 1)) mod 2 ^ bits - 2 ^ (bits - 1)"

definition incr :: "('v, 'o, 'ws, 'f) externals \<Rightarrow> int \<Rightarrow> int" where
  "incr X n = wrapInt (intSize X) (n + 1)"

definition appendEscapedString ::
  "('v, 'o, 'ws, 'f) externals \<Rightarrow> string \<Rightarrow> string \<Rightarrow> bool \<Rightarrow> string" where
  "appendEscapedString X dst s escapeNewline = dst @ escaped X s escapeNewline"

subsection \<open>The cell encoder\<close>

text \<open>\<^verbatim>\<open>appendCellNoRef\<close> of the newest variant of the file.\<close>

definition appendCellNoRef ::
  "('v, 'o, 'ws, 'f) externals \<Rightarrow> string \<Rightarrow> xlsxC \<Rightarrow> string" where
  "appendCellNoRef X dst c =
     (let dst = dst @ ''<c'';
          dst = (if AttrValue (cXMLSpace c) \<noteq> [] then
                   dst @ '' xml:'' @ NameLocal (cXMLSpace c) @ ''=\"'' @
                     AttrValue (cXMLSpace c) @ ''\"''
                 else dst);
          dst = (if cS c \<noteq> 0 then AppendInt (dst @ '' s=\"'') (cS c) @ ''\"'' else dst);
          dst = (if cT c \<noteq> [] then dst @ '' t=\"'' @ cT c @ ''\"'' else dst);
          dst = dst @ ''>'';
          dst = (case cF c of
                   Some content \<Rightarrow> appendEscapedString X (dst @ ''<f>'') content True @ ''</f>''
                 | None \<Rightarrow> dst);
          dst = (if cV c \<noteq> [] then appendEscapedString X (dst @ ''<v>'') (cV c) True @ ''</v>''
                 else dst)
      in dst @ ''</c>'')"

text \<open>
  \<^verbatim>\<open>appendCellNoRef\<close> of \<^verbatim>\<open>src/direct.go\<close>, the oldest variant: the style attribute is
  guarded by \<^verbatim>\<open>c.S > 1\<close>, and the whitespace attribute starts with \<^verbatim>\<open> xml:"\<close>.
\<close>

definition appendCellNoRef_direct_go ::
  "('v, 'o, 'ws, 'f) externals \<Rightarrow> string \<Rightarrow> xlsxC \<Rightarrow> string" where
  "appendCellNoRef_direct_go X dst c =
     (let dst = dst @ ''<c'';
          dst = (if AttrValue (cXMLSpace c) \<noteq> [] then
                   dst @ '' xml:\"'' @ NameLocal (cXMLSpace c) @ ''=\"'' @
                     AttrValue (cXMLSpace c) @ ''\"''
                 else dst);
          dst = (if cS c > 1 then AppendInt (dst @ '' s=\"'') (cS c) @ ''\"'' else dst);
          dst = (if cT c \<noteq> [] then dst @ '' t=\"'' @ cT c @ ''\"'' else dst);
          dst = dst @ ''>'';
          dst = (case cF c of
                   Some content \<Rightarrow> appendEscapedString X (dst @ ''<f>'') content True @ ''</f>''
                 | None \<Rightarrow> dst);
          dst = (if cV c \<noteq> [] then appendEscapedString X (dst @ ''<v>'') (cV c) True @ ''</v>''
                 else dst)
      in dst @ ''</c>'')"

subsection \<open>The writer's state\<close>

text \<open>
  \<^verbatim>\<open>DirectWriter\<close>. The embedded \<^verbatim>\<open>sync.RWMutex\<close> is the flag \<open>locked\<close> (only
  \<^verbatim>\<open>Lock\<close> and \<^verbatim>\<open>Unlock\<close> are used); the channel \<^verbatim>\<open>done\<close>, which is only ever closed, is the
  flag \<open>doneClosed\<close>; \<open>out\<close> is \<open>None\<close> for a nil writer and holds the attached writer's state
  otherwise. The pointer \<^verbatim>\<open>File\<close> to the owning workbook is left out: the file reads nothing
  back from it after creation, and \<^verbatim>\<open>Close\<close> only deletes the sheet's placeholders there.
\<close>

record 'ws DirectWriter =
  locked :: bool
  Sheet :: string
  SheetID :: int
  cols :: string
  worksheet :: 'ws
  sheetPath :: string
  maxBufferSize :: int
  bytesWritten :: int
  buf :: string
  out :: "sink option"
  doneClosed :: bool
  rowCount :: int
  maxColLengths :: "int list"
  waitMode :: bool

text \<open>
  \<^verbatim>\<open>NewDirectWriter\<close>. The answers of the workbook (\<^verbatim>\<open>getSheetID\<close> after \<^verbatim>\<open>NewSheet\<close>,
  \<^verbatim>\<open>workSheetReader\<close>, the entry of \<^verbatim>\<open>sheetMap\<close>) are arguments.
\<close>

definition NewDirectWriter ::
  "string \<Rightarrow> int \<Rightarrow> int \<Rightarrow> error + 'ws \<Rightarrow> string \<Rightarrow> error + 'ws DirectWriter" where
  "NewDirectWriter sheet maxBufSize sheetID wsRead path =
     (if sheetID = - 1 then Inl SheetIDNotFound
      else case wsRead of
             Inl err \<Rightarrow> Inl err
           | Inr ws \<Rightarrow>
               Inr \<lparr>locked = False, Sheet = sheet, SheetID = sheetID, cols = [],
                    worksheet = ws, sheetPath = path, maxBufferSize = maxBufSize,
                    bytesWritten = 0, buf = [], out = None, doneClosed = False,
                    rowCount = 0, maxColLengths = [], waitMode = False\<rparr>)"

definition SetWait :: "'ws DirectWriter \<Rightarrow> bool \<Rightarrow> error option \<times> 'ws DirectWriter" where
  "SetWait dw b =
     (if b then
        (if bytesWritten dw > 0 then (Some WaitModeAfterWrite, dw)
         else (None, dw\<lparr>waitMode := True\<rparr>))
      else (None, dw\<lparr>waitMode := False\<rparr>))"

definition SetColWidth ::
  "('v, 'o, 'ws, 'f) externals \<Rightarrow> 'ws DirectWriter \<Rightarrow> int \<Rightarrow> int \<Rightarrow> 'f \<Rightarrow>
     error option \<times> 'ws DirectWriter" where
  "SetColWidth X dw mn mx width =
     (if bytesWritten dw > 0 then (Some ColWidthAfterWrite, dw)
      else if mn > TotalColumns X \<or> mx > TotalColumns X then (Some ErrColumnNumber, dw)
      else if mn < 1 \<or> mx < 1 then (Some ErrColumnNumber, dw)
      else if widthTooLarge X width then (Some ErrColumnWidth, dw)
      else
        (let (mn, mx) = (if mn > mx then (mx, mn) else (mn, mx)) in
           (None,
            dw\<lparr>cols := cols dw @ ''<col min=\"'' @ FormatInt mn @ ''\" max=\"'' @ FormatInt mx @
                   ''\" width=\"'' @ formatWidth X width @ ''\" customWidth=\"1\"/>''\<rparr>)))"

definition buildHeader :: "('v, 'o, 'ws, 'f) externals \<Rightarrow> 'ws DirectWriter \<Rightarrow> string" where
  "buildHeader X dw =
     (let header = XMLHeader X @ ''<worksheet'' @ templateNamespaceIDMap X;
          header = header @ bulkFields X (worksheet dw) 2 5;
          header = (if length (cols dw) > 0 then header @ ''<cols>'' @ cols dw @ ''</cols>''
                    else header)
      in header @ ''<sheetData>'')"

subsection \<open>Flushing\<close>

text \<open>
  \<^verbatim>\<open>tryFlush\<close>. \<^verbatim>\<open>Lock\<close> on the held mutex never returns. \<open>flushBuffer\<close> is the part of the
  function from the write of the buffer on (the statements after the header block).
\<close>

definition flushBuffer :: "'ws DirectWriter \<Rightarrow> sink \<Rightarrow> (error option \<times> 'ws DirectWriter)" where
  "flushBuffer dw w =
     (case sink_Write w (buf dw) of
        ((n, err), w') \<Rightarrow>
          (let dw = dw\<lparr>out := Some w', locked := False\<rparr> in
             case err of
               Some e \<Rightarrow> (Some e, dw)
             | None \<Rightarrow> (None, dw\<lparr>bytesWritten := bytesWritten dw + int n, buf := []\<rparr>)))"

definition tryFlush ::
  "('v, 'o, 'ws, 'f) externals \<Rightarrow> 'ws DirectWriter \<Rightarrow> (error option \<times> 'ws DirectWriter) result"
  where
  "tryFlush X dw =
     (if locked dw then Blocked
      else
        (let dw = dw\<lparr>locked := True\<rparr> in
           case out dw of
             None \<Rightarrow> Ok (None, dw\<lparr>locked := False\<rparr>)
           | Some w \<Rightarrow>
               (if bytesWritten dw = 0 then
                  (case sink_Write w (buildHeader X dw) of
                     ((n, Some err), w') \<Rightarrow> Ok (Some err, dw\<lparr>out := Some w'\<rparr>)
                   | ((n, None), w') \<Rightarrow>
                       Ok (flushBuffer
                            (dw\<lparr>out := Some w', bytesWritten := bytesWritten dw + int n\<rparr>) w'))
                else Ok (flushBuffer dw w))))"

text \<open>The number of \<^verbatim>\<open>Write\<close> calls a flush makes when none of them fails.\<close>

definition writesDue :: "'ws DirectWriter \<Rightarrow> nat" where
  "writesDue dw = (if bytesWritten dw = 0 then 2 else 1)"

subsection \<open>Adding a row\<close>

text \<open>The body of the loop over the cells of \<^verbatim>\<open>AddRow\<close>, from index \<open>i\<close> on.\<close>

definition newCell :: "'v Cell \<Rightarrow> xlsxC" where
  "newCell val =
     \<lparr>cXMLSpace = \<lparr>NameLocal = [], AttrValue = []\<rparr>, cS = StyleID val, cT = [],
      cF = (if Formula val \<noteq> [] then Some (Formula val) else None), cV = []\<rparr>"

fun addCells ::
  "('v, 'o, 'ws, 'f) externals \<Rightarrow> nat \<Rightarrow> 'v Cell list \<Rightarrow> 'ws DirectWriter \<Rightarrow>
     (error option \<times> 'ws DirectWriter) result" where
  "addCells X i [] dw = Ok (None, dw)"
| "addCells X i (val # rest) dw =
     (case setCellValFunc X (newCell val) (Value val) of
        Inl err \<Rightarrow> Ok (Some err, dw\<lparr>buf := buf dw @ ''</row>''\<rparr>)
      | Inr c \<Rightarrow>
          (if i < length (maxColLengths dw) then
             (let l = int (length (cV c));
                  dw = (if l > maxColLengths dw ! i
                        then dw\<lparr>maxColLengths := (maxColLengths dw)[i := l]\<rparr> else dw);
                  dw = dw\<lparr>buf := appendCellNoRef X (buf dw) c\<rparr>
              in addCells X (Suc i) rest dw)
           else Panic))"

text \<open>
  \<^verbatim>\<open>AddRow\<close> up to and including the closing tag of the row (every statement before the test
  of the buffer size): the result is the error of an early return, if any, and the state.
\<close>

definition AddRow_row ::
  "('v, 'o, 'ws, 'f) externals \<Rightarrow> 'ws DirectWriter \<Rightarrow> 'v Cell list \<Rightarrow> 'o list \<Rightarrow>
     (error option \<times> 'ws DirectWriter) result" where
  "AddRow_row X dw vals opts =
     (let dw = dw\<lparr>rowCount := incr X (rowCount dw)\<rparr>;
          dw = dw\<lparr>buf := buf dw @ ''<row r=\"''\<rparr>;
          dw = dw\<lparr>buf := AppendInt (buf dw) (rowCount dw)\<rparr>;
          dw = dw\<lparr>buf := buf dw @ ''\"''\<rparr>
      in case (if length opts > 0 then
                 (case marshalRowAttrs X opts of
                    Inl err \<Rightarrow> Inl err
                  | Inr attrs \<Rightarrow> Inr (dw\<lparr>buf := buf dw @ attrs\<rparr>))
               else Inr dw) of
           Inl err \<Rightarrow> Ok (Some err, dw)
         | Inr dw \<Rightarrow>
             (let dw = dw\<lparr>buf := buf dw @ ''>''\<rparr>;
                  dw = (if length vals > length (maxColLengths dw) then
                          dw\<lparr>maxColLengths := maxColLengths dw @
                               replicate (length vals - length (maxColLengths dw)) 0\<rparr>
                        else dw)
              in case addCells X 0 vals dw of
                   Ok (None, dw) \<Rightarrow> Ok (None, dw\<lparr>buf := buf dw @ ''</row>''\<rparr>)
                 | r \<Rightarrow> r))"

text \<open>\<^verbatim>\<open>AddRow\<close>: the row, then the flush when the buffer is over the threshold.\<close>

definition AddRow ::
  "('v, 'o, 'ws, 'f) externals \<Rightarrow> 'ws DirectWriter \<Rightarrow> 'v Cell list \<Rightarrow> 'o list \<Rightarrow>
     ((int \<times> error option) \<times> 'ws DirectWriter) result" where
  "AddRow X dw vals opts =
     (case AddRow_row X dw vals opts of
        Blocked \<Rightarrow> Blocked
      | Panic \<Rightarrow> Panic
      | Ok (Some err, dw) \<Rightarrow> Ok ((int (length (buf dw)), Some err), dw)
      | Ok (None, dw) \<Rightarrow>
          (if int (length (buf dw)) > maxBufferSize dw \<and> \<not> waitMode dw then
             (case tryFlush X dw of
                Blocked \<Rightarrow> Blocked
              | Panic \<Rightarrow> Panic
              | Ok (err, dw) \<Rightarrow> Ok ((int (length (buf dw)), err), dw))
           else Ok ((int (length (buf dw)), None), dw)))"

definition MaxColumnLengths :: "'ws DirectWriter \<Rightarrow> int list" where
  "MaxColumnLengths dw = maxColLengths dw"

subsection \<open>Closing and attaching a sink\<close>

text \<open>
  \<^verbatim>\<open>Close\<close>. The three deletions act on the workbook only. Closing the closed channel
  panics.
\<close>

definition Close ::
  "('v, 'o, 'ws, 'f) externals \<Rightarrow> 'ws DirectWriter \<Rightarrow> (error option \<times> 'ws DirectWriter) result"
  where
  "Close X dw =
     (let dw = dw\<lparr>buf := buf dw @ ''</sheetData>''\<rparr>;
          dw = dw\<lparr>buf := buf dw @ bulkFields X (worksheet dw) 8 15\<rparr>;
          dw = dw\<lparr>buf := buf dw @ bulkFields X (worksheet dw) 17 38\<rparr>;
          dw = dw\<lparr>buf := buf dw @ bulkFields X (worksheet dw) 40 40\<rparr>;
          dw = dw\<lparr>buf := buf dw @ ''</worksheet>''\<rparr>
      in case tryFlush X dw of
           Blocked \<Rightarrow> Blocked
         | Panic \<Rightarrow> Panic
         | Ok (Some err, dw) \<Rightarrow> Ok (Some err, dw)
         | Ok (None, dw) \<Rightarrow>
             (if doneClosed dw then Panic else Ok (None, dw\<lparr>doneClosed := True\<rparr>)))"

text \<open>
  \<^verbatim>\<open>WriteTo\<close>. When \<^verbatim>\<open>done\<close> is closed the call replays and returns: \<open>Replayed n err w\<close>
  gives the two results and the writer after the call. Otherwise it records the writer under
  the lock and waits for \<^verbatim>\<open>done\<close>: \<open>Attached dw\<close> is the state in which the call is parked (it
  returns \<open>WriteTo_return\<close> of the state in which \<^verbatim>\<open>Close\<close> closes the channel), and
  \<open>LockBlocked\<close> says that the lock was never acquired.
\<close>

datatype 'ws attach = Replayed int "error option" sink | Attached "'ws DirectWriter" | LockBlocked

definition WriteTo ::
  "('v, 'o, 'ws, 'f) externals \<Rightarrow> 'ws DirectWriter \<Rightarrow> sink \<Rightarrow> 'ws attach" where
  "WriteTo X dw w =
     (if doneClosed dw then
        (if bytesWritten dw > 0 then Replayed 0 (Some WriteToAfterFlush) w
         else
           (case sink_Write w (buildHeader X dw) of
              ((n, Some err), w') \<Rightarrow> Replayed (int n) (Some err) w'
            | ((n, None), w') \<Rightarrow>
                (case sink_Write w' (buf dw) of
                   ((n2, err), w'') \<Rightarrow> Replayed (int (n + n2)) err w'')))
      else if locked dw then LockBlocked
      else Attached (dw\<lparr>out := Some w\<rparr>))"

definition WriteTo_return :: "'ws DirectWriter \<Rightarrow> int \<times> error option" where
  "WriteTo_return dw = (bytesWritten dw, None)"

definition Write :: "'ws DirectWriter \<Rightarrow> string \<Rightarrow> (int \<times> error option) \<times> 'ws DirectWriter" where
  "Write dw p = ((int (length p), None), dw\<lparr>buf := buf dw @ p\<rparr>)"

subsection \<open>Runs of calls\<close>

text \<open>
  A driver, as a test would be written: the calls a producer and a consumer make on one writer,
  in the order in which they take effect. The run keeps, for every \<^verbatim>\<open>AddRow\<close>, the value of
  \<^verbatim>\<open>rowCount\<close> and the bytes the call has appended to the buffer when it reaches the test
  of the buffer size (\<open>emitted\<close>); the values and errors the calls return are dropped, as a
  caller that goes on regardless would. A \<^verbatim>\<open>WriteTo\<close> that replays leaves the writer as it
  is; one that never gets the lock leaves the producer running without a sink.
\<close>

datatype ('v, 'o, 'f) call =
    CallSetColWidth int int 'f
  | CallSetWait bool
  | CallAddRow "'v Cell list" "'o list"
  | CallWriteTo sink
  | CallClose

definition emitted ::
  "('v, 'o, 'ws, 'f) externals \<Rightarrow> 'ws DirectWriter \<Rightarrow> 'v Cell list \<Rightarrow> 'o list \<Rightarrow>
     (int \<times> string) list" where
  "emitted X dw vals opts =
     (case AddRow_row X dw vals opts of
        Ok (err, dw') \<Rightarrow> [(rowCount dw', drop (length (buf dw)) (buf dw'))]
      | _ \<Rightarrow> [])"

fun run ::
  "('v, 'o, 'ws, 'f) externals \<Rightarrow> 'ws DirectWriter \<Rightarrow> ('v, 'o, 'f) call list \<Rightarrow>
     ((int \<times> string) list \<times> 'ws DirectWriter) result" where
  "run X dw [] = Ok ([], dw)"
| "run X dw (CallSetColWidth mn mx width # calls) = run X (snd (SetColWidth X dw mn mx width)) calls"
| "run X dw (CallSetWait b # calls) = run X (snd (SetWait dw b)) calls"
| "run X dw (CallAddRow vals opts # calls) =
     (case AddRow X dw vals opts of
        Ok (r, dw') \<Rightarrow>
          (case run X dw' calls of
             Ok (log, dw'') \<Rightarrow> Ok (emitted X dw vals opts @ log, dw'')
           | Blocked \<Rightarrow> Blocked
           | Panic \<Rightarrow> Panic)
      | Blocked \<Rightarrow> Blocked
      | Panic \<Rightarrow> Panic)"
| "run X dw (CallWriteTo w # calls) =
     (case WriteTo X dw w of Attached dw' \<Rightarrow> run X dw' calls | _ \<Rightarrow> run X dw calls)"
| "run X dw (CallClose # calls) =
     (case Close X dw of
        Ok (err, dw') \<Rightarrow> run X dw' calls
      | Blocked \<Rightarrow> Blocked
      | Panic \<Rightarrow> Panic)"

definition addRowCalls :: "('v Cell list \<times> 'o list) list \<Rightarrow> ('v, 'o, 'f) call list" where
  "addRowCalls rows = map (\<lambda>(vals, opts). CallAddRow vals opts) rows"

definition setColWidthCalls :: "(int \<times> int \<times> 'f) list \<Rightarrow> ('v, 'o, 'f) call list" where
  "setColWidthCalls ws = map (\<lambda>(mn, mx, width). CallSetColWidth mn mx width) ws"

text \<open>The text of the cells of a row as the loop of \<^verbatim>\<open>AddRow\<close> appends it, and its error.\<close>

fun cellsText :: "('v, 'o, 'ws, 'f) externals \<Rightarrow> 'v Cell list \<Rightarrow> string" where
  "cellsText X [] = []"
| "cellsText X (val # rest) =
     (case setCellValFunc X (newCell val) (Value val) of
        Inl err \<Rightarrow> ''</row>''
      | Inr c \<Rightarrow> appendCellNoRef X [] c @ cellsText X rest)"

fun cellsError :: "('v, 'o, 'ws, 'f) externals \<Rightarrow> 'v Cell list \<Rightarrow> error option" where
  "cellsError X [] = None"
| "cellsError X (val # rest) =
     (case setCellValFunc X (newCell val) (Value val) of
        Inl err \<Rightarrow> Some err
      | Inr c \<Rightarrow> cellsError X rest)"

text \<open>
  The text of a whole row with number \<open>n\<close>, as \<^verbatim>\<open>AddRow\<close> leaves it in the buffer, and the
  error \<^verbatim>\<open>AddRow\<close> returns early with; both are used to state what \<open>AddRow_row\<close> computes.
\<close>

definition rowText ::
  "('v, 'o, 'ws, 'f) externals \<Rightarrow> int \<Rightarrow> 'v Cell list \<Rightarrow> 'o list \<Rightarrow> string" where
  "rowText X n vals opts =
     ''<row r=\"'' @ FormatInt n @ ''\"'' @
     (case (if length opts > 0 then marshalRowAttrs X opts else Inr []) of
        Inl err \<Rightarrow> []
      | Inr attrs \<Rightarrow>
          attrs @ ''>'' @ cellsText X vals @
          (if cellsError X vals = None then ''</row>'' else []))"

definition rowError ::
  "('v, 'o, 'ws, 'f) externals \<Rightarrow> 'v Cell list \<Rightarrow> 'o list \<Rightarrow> error option" where
  "rowError X vals opts =
     (case (if length opts > 0 then marshalRowAttrs X opts else Inr []) of
        Inl err \<Rightarrow> Some err
      | Inr attrs \<Rightarrow> cellsError X vals)"

text \<open>The closing elements \<^verbatim>\<open>Close\<close> appends to the buffer.\<close>

definition trailer :: "('v, 'o, 'ws, 'f) externals \<Rightarrow> 'ws DirectWriter \<Rightarrow> string" where
  "trailer X dw =
     ''</sheetData>'' @ bulkFields X (worksheet dw) 8 15 @ bulkFields X (worksheet dw) 17 38 @
     bulkFields X (worksheet dw) 40 40 @ ''</worksheet>''"

text \<open>
  The arguments of the \<^verbatim>\<open>AddRow\<close> calls of a run, in order, and the log entries of rows that
  are added when \<^verbatim>\<open>rowCount\<close> is \<open>n\<close>.
\<close>

fun addRowArgs :: "('v, 'o, 'f) call list \<Rightarrow> ('v Cell list \<times> 'o list) list" where
  "addRowArgs [] = []"
| "addRowArgs (CallAddRow vals opts # calls) = (vals, opts) # addRowArgs calls"
| "addRowArgs (c # calls) = addRowArgs calls"

fun rowsFrom ::
  "('v, 'o, 'ws, 'f) externals \<Rightarrow> int \<Rightarrow> ('v Cell list \<times> 'o list) list \<Rightarrow> (int \<times> string) list"
  where
  "rowsFrom X n [] = []"
| "rowsFrom X n ((vals, opts) # rows) =
     (incr X n, rowText X (incr X n) vals opts) # rowsFrom X (incr X n) rows"

text \<open>
  The relation between a writer \<open>a\<close> that streams to a sink and a writer \<open>b\<close> without a sink
  that have received the same calls: what \<open>a\<close>'s sink has received since it held \<open>r0\<close>, with
  what \<open>a\<close> still owes it, is the header of \<open>b\<close> followed by the buffer of \<open>b\<close>, and
  \<^verbatim>\<open>bytesWritten\<close> of \<open>a\<close> counts what the sink has received since.
\<close>

definition streams ::
  "('v, 'o, 'ws, 'f) externals \<Rightarrow> string \<Rightarrow> 'ws DirectWriter \<Rightarrow> 'ws DirectWriter \<Rightarrow> bool" where
  "streams X r0 a b =
     (\<not> locked a \<and> \<not> locked b \<and> out b = None \<and> bytesWritten b = 0 \<and> 0 \<le> bytesWritten a \<and>
      cols a = cols b \<and> worksheet a = worksheet b \<and> rowCount a = rowCount b \<and>
      waitMode a = waitMode b \<and> doneClosed a = doneClosed b \<and>
      (case out a of
         None \<Rightarrow> False
       | Some w \<Rightarrow>
           reliable w \<and>
           int (length (received w)) = int (length r0) + bytesWritten a \<and>
           received w @ (if bytesWritten a = 0 then buildHeader X a else []) @ buf a =
             r0 @ buildHeader X b @ buf b))"

text \<open>The writer after a list of \<^verbatim>\<open>SetColWidth\<close> calls whose errors are ignored.\<close>

definition configure ::
  "('v, 'o, 'ws, 'f) externals \<Rightarrow> 'ws DirectWriter \<Rightarrow> (int \<times> int \<times> 'f) list \<Rightarrow> 'ws DirectWriter"
  where
  "configure X dw ws = foldl (\<lambda>d (mn, mx, width). snd (SetColWidth X d mn mx width)) dw ws"

subsection \<open>A concrete environment\<close>

text \<open>
  Values, row options and collaborators for the examples: a value is a string, a number or
  something the encoder rejects; a row option is its attribute text, and the option
  \<open>''bad''\<close> is invalid; widths are whole numbers.
\<close>

datatype tvalue = TStr string | TInt int | TBad

definition testX :: "(tvalue, string, unit, int) externals" where
  "testX =
     \<lparr>intSize = 64,
      XMLHeader = ''<?xml?>'',
      templateNamespaceIDMap = '' xmlns=\"m\"'',
      TotalColumns = 16384,
      bulkFields = (\<lambda>ws a b. []),
      marshalRowAttrs =
        (\<lambda>opts. if ''bad'' \<in> set opts then Inl (External ''row'') else Inr (concat opts)),
      setCellValFunc =
        (\<lambda>c v. case v of
                 TStr s \<Rightarrow> Inr (c\<lparr>cT := ''str'', cV := s\<rparr>)
               | TInt i \<Rightarrow> Inr (c\<lparr>cV := FormatInt i\<rparr>)
               | TBad \<Rightarrow> Inl (External ''value'')),
      escaped = (\<lambda>s b. s),
      widthTooLarge = (\<lambda>w. w > 255),
      formatWidth = (\<lambda>w. FormatInt w @ ''.000000'')\<rparr>"

definition testDW :: "int \<Rightarrow> unit DirectWriter" where
  "testDW maxBufSize =
     \<lparr>locked = False, Sheet = ''Sheet1'', SheetID = 1, cols = [],
      worksheet = (), sheetPath = ''xl/worksheets/sheet1.xml'', maxBufferSize = maxBufSize,
      bytesWritten = 0, buf = [], out = None, doneClosed = False,
      rowCount = 0, maxColLengths = [], waitMode = False\<rparr>"

definition testSink :: "(nat \<times> error) option list \<Rightarrow> sink" where
  "testSink sc = \<lparr>received = [], script = sc\<rparr>"

definition cell :: "int \<Rightarrow> 'v \<Rightarrow> 'v Cell" where
  "cell style v = \<lparr>StyleID = style, Formula = [], Value = v\<rparr>"

text \<open>
  The writer \<open>testDW m\<close> after a sink was attached, the row \<open>[''foo'']\<close> added and \<^verbatim>\<open>Close\<close>
  called: everything has been delivered.
\<close>

definition closedDW :: "int \<Rightarrow> unit DirectWriter" where
  "closedDW m =
     (testDW m)
       \<lparr>bytesWritten := 104,
        out := Some \<lparr>received =
                      ''<?xml?><worksheet xmlns=\"m\"<sheetData>'' @
                      ''<row r=\"1\"><c t=\"str\"><v>foo</v></c></row>'' @
                      ''</sheetData></worksheet>'',
                    script = []\<rparr>,
        doneClosed := True, rowCount := 1, maxColLengths := [3]\<rparr>"

section \<open>What a row adds to the buffer\<close>

text \<open>The encoder appends to its destination.\<close>

lemma appendCellNoRef_dst: "appendCellNoRef X dst c = dst @ appendCellNoRef X [] c"
  by (simp add: appendCellNoRef_def Let_def AppendInt_def appendEscapedString_def split: option.splits)

text \<open>
  The loop over the cells never reads \<^verbatim>\<open>maxColLengths\<close> out of range once the slice is as
  long as the row, and it changes nothing but \<^verbatim>\<open>maxColLengths\<close> and the buffer.
\<close>

lemma addCells_eq:
  "i + length vs \<le> length (maxColLengths dw) \<Longrightarrow>
   \<exists>m. addCells X i vs dw =
          Ok (cellsError X vs, dw\<lparr>maxColLengths := m, buf := buf dw @ cellsText X vs\<rparr>) \<and>
        length m = length (maxColLengths dw)"
proof (induction vs arbitrary: i dw)
  case Nil
  show ?case by (rule exI [of _ "maxColLengths dw"]) simp
next
  case (Cons v vs)
  show ?case
  proof (cases "setCellValFunc X (newCell v) (Value v)")
    case (Inl e)
    then show ?thesis by (intro exI [of _ "maxColLengths dw"]) simp
  next
    case (Inr c)
    let ?l = "int (length (cV c))"
    let ?d1 = "if ?l > maxColLengths dw ! i
               then dw\<lparr>maxColLengths := (maxColLengths dw)[i := ?l]\<rparr> else dw"
    let ?d2 = "?d1\<lparr>buf := appendCellNoRef X (buf ?d1) c\<rparr>"
    have len: "length (maxColLengths ?d2) = length (maxColLengths dw)" by simp
    have i: "i < length (maxColLengths dw)" using Cons.prems by simp
    have "Suc i + length vs \<le> length (maxColLengths ?d2)" using Cons.prems len by simp
    from Cons.IH [OF this] obtain m where
      m: "addCells X (Suc i) vs ?d2 =
            Ok (cellsError X vs, ?d2\<lparr>maxColLengths := m, buf := buf ?d2 @ cellsText X vs\<rparr>)"
      and lm: "length m = length (maxColLengths ?d2)" by blast
    have step: "addCells X i (v # vs) dw = addCells X (Suc i) vs ?d2"
      using Inr i by (simp add: Let_def)
    have "?d2\<lparr>maxColLengths := m, buf := buf ?d2 @ cellsText X vs\<rparr> =
          dw\<lparr>maxColLengths := m, buf := buf dw @ cellsText X (v # vs)\<rparr>"
      using Inr by (simp add: appendCellNoRef_dst [of X "buf dw" c])
    with m step lm len Inr show ?thesis by (intro exI [of _ m]) simp
  qed
qed

text \<open>
  \<^verbatim>\<open>AddRow\<close>, up to the closing tag, always returns: it increments \<^verbatim>\<open>rowCount\<close>, appends
  \<open>rowText\<close> for the new number, and touches \<^verbatim>\<open>maxColLengths\<close>.
\<close>

lemma AddRow_row_eq:
  "\<exists>m. AddRow_row X dw vals opts =
         Ok (rowError X vals opts,
             dw\<lparr>rowCount := incr X (rowCount dw), maxColLengths := m,
                buf := buf dw @ rowText X (incr X (rowCount dw)) vals opts\<rparr>)"
proof (cases "if length opts > 0 then marshalRowAttrs X opts else Inr []")
  case (Inl e)
  then show ?thesis
    by (intro exI [of _ "maxColLengths dw"])
       (auto simp: AddRow_row_def rowText_def rowError_def AppendInt_def Let_def
             split: if_splits sum.splits)
next
  case (Inr attrs)
  define d0 where "d0 = dw\<lparr>rowCount := incr X (rowCount dw),
     buf := buf dw @ ''<row r=\"'' @ FormatInt (incr X (rowCount dw)) @ ''\"'' @ attrs @ ''>''\<rparr>"
  define d1 where "d1 = (if length vals > length (maxColLengths d0) then
               d0\<lparr>maxColLengths := maxColLengths d0 @
                      replicate (length vals - length (maxColLengths d0)) 0\<rparr>
             else d0)"
  have "0 + length vals \<le> length (maxColLengths d1)" by (simp add: d1_def)
  from addCells_eq [OF this, of X] obtain m where
    m: "addCells X 0 vals d1 =
          Ok (cellsError X vals, d1\<lparr>maxColLengths := m, buf := buf d1 @ cellsText X vals\<rparr>)"
    by blast
  have pre: "AddRow_row X dw vals opts =
          (case addCells X 0 vals d1 of
             Ok (None, dw) \<Rightarrow> Ok (None, dw\<lparr>buf := buf dw @ ''</row>''\<rparr>)
           | r \<Rightarrow> r)"
    using Inr unfolding d1_def d0_def
    by (auto simp: AddRow_row_def AppendInt_def Let_def split: if_splits sum.splits)
  have d1: "d1\<lparr>maxColLengths := m, buf := b\<rparr> =
            dw\<lparr>rowCount := incr X (rowCount dw), maxColLengths := m, buf := b\<rparr>" for b
    by (simp add: d1_def d0_def)
  have b1: "buf d1 = buf dw @ ''<row r=\"'' @ FormatInt (incr X (rowCount dw)) @ ''\"'' @ attrs @ ''>''"
    by (simp add: d1_def d0_def)
  show ?thesis
    using Inr
    by (intro exI [of _ m])
       (auto simp: pre m d1 b1 rowText_def rowError_def split: option.splits)
qed

section \<open>Auxiliary facts\<close>

lemma AddRow_row_cases:
  obtains m where "AddRow_row X dw vals opts =
         Ok (rowError X vals opts,
             dw\<lparr>rowCount := incr X (rowCount dw), maxColLengths := m,
                buf := buf dw @ rowText X (incr X (rowCount dw)) vals opts\<rparr>)"
  using AddRow_row_eq [of X dw vals opts] by blast

lemma tryFlush_no_sink:
  "\<not> locked dw \<Longrightarrow> out dw = None \<Longrightarrow> tryFlush X dw = Ok (None, dw)"
  by (simp add: tryFlush_def)

lemma buildHeader_nonempty: "0 < length (buildHeader X dw)"
  by (simp add: buildHeader_def Let_def)

lemma FormatInt_small:
  "FormatInt 1 = ''1''" "FormatInt 2 = ''2''" "FormatInt 3 = ''3''" "FormatInt 20 = ''20''"
  "FormatInt 123 = ''123''"
  by (simp_all add: FormatInt_def FormatUint.simps digit_def)

text \<open>
  The increment of a Go \<^verbatim>\<open>int\<close> is the successor as long as the successor is below
  \<open>2 ^ (intSize - 1)\<close>; at the largest value of the type it is the smallest one.
\<close>

lemma incr_small:
  assumes "0 \<le> n" and "n + 1 < 2 ^ (intSize X - 1)"
  shows "incr X n = n + 1"
proof (cases "intSize X")
  case 0
  with assms show ?thesis by simp
next
  case (Suc b)
  have "(n + 1 + 2 ^ b) mod (2 * 2 ^ b) = n + 1 + (2 ^ b :: int)"
    using assms Suc by (intro mod_pos_pos_trivial) simp_all
  with Suc show ?thesis by (simp add: incr_def wrapInt_def)
qed

lemma incr_wraps:
  assumes "0 < intSize X"
  shows "incr X (2 ^ (intSize X - 1) - 1) = - (2 ^ (intSize X - 1))"
proof -
  from assms obtain b where b: "intSize X = Suc b" by (cases "intSize X") simp_all
  have "(2 ^ b + 2 ^ b) mod (2 * 2 ^ b) = (0 :: int)" by simp
  with b show ?thesis by (simp add: incr_def wrapInt_def)
qed

lemma incr_testX [simp]: "incr testX 0 = 1" "incr testX 1 = 2" "incr testX 2 = 3"
  by (simp_all add: incr_def wrapInt_def testX_def)

section \<open>Invalid row options\<close>

text \<open>
  Claim C10. When \<^verbatim>\<open>marshalRowAttrs\<close> rejects the row options, \<^verbatim>\<open>AddRow\<close> returns that
  error with the length of the buffer; \<^verbatim>\<open>rowCount\<close> has been incremented and the buffer has
  grown by exactly the opening fragment \<^verbatim>\<open><row r="N"\<close>: neither the \<^verbatim>\<open>>\<close> that ends the
  start tag nor a closing tag follows, so the buffer does not end in a complete element, and
  nothing else of the writer changes.
\<close>

theorem AddRow_invalid_row_options:
  assumes "opts \<noteq> []" and "marshalRowAttrs X opts = Inl e"
  shows "AddRow X dw vals opts =
           Ok ((int (length (buf dw @ ''<row r=\"'' @ FormatInt (incr X (rowCount dw)) @ ''\"'')), Some e),
               dw\<lparr>rowCount := incr X (rowCount dw),
                  buf := buf dw @ ''<row r=\"'' @ FormatInt (incr X (rowCount dw)) @ ''\"''\<rparr>)"
  using assms
  by (simp add: AddRow_def AddRow_row_def AppendInt_def Let_def)

theorem AddRow_invalid_row_options_witness:
  "[''bad''] \<noteq> [] \<and> marshalRowAttrs testX [''bad''] = Inl (External ''row'') \<and>
   AddRow testX (testDW 8) [cell 0 (TStr ''foo'')] [''bad''] =
     Ok ((10, Some (External ''row'')), (testDW 8)\<lparr>rowCount := 1, buf := ''<row r=\"1\"''\<rparr>)"
proof -
  have h1: "[''bad''] \<noteq> []" by simp
  have h2: "marshalRowAttrs testX [''bad''] = Inl (External ''row'')" by (simp add: testX_def)
  from AddRow_invalid_row_options [OF h1 h2, of "testDW 8" "[cell 0 (TStr ''foo'')]"]
  show ?thesis using h1 h2 by (simp add: testDW_def FormatInt_small)
qed

section \<open>Writes and flushes\<close>

lemma sink_Write_ok:
  "succeeds (Suc k) w \<Longrightarrow>
   \<exists>w'. sink_Write w p = ((length p, None), w') \<and> received w' = received w @ p \<and>
        succeeds k w' \<and> script w' = tl (script w)"
  by (auto simp: sink_Write_def succeeds_def split: list.splits option.splits)

lemma sink_Write_reliable:
  "reliable w \<Longrightarrow>
   \<exists>w'. sink_Write w p = ((length p, None), w') \<and> received w' = received w @ p \<and> reliable w'"
  by (auto simp: sink_Write_def reliable_def split: list.splits option.splits)

lemma sink_Write_error:
  "sink_Write w p = ((n, Some e), w') \<Longrightarrow> \<exists>k. script w = Some (k, e) # script w'"
  by (auto simp: sink_Write_def split: list.splits option.splits)

lemma sink_Write_no_error:
  "sink_Write w p = ((n, None), w') \<Longrightarrow>
   n = length p \<and> received w' = received w @ p \<and> (script w = [] \<and> script w' = [] \<or> script w = None # script w')"
  by (auto simp: sink_Write_def split: list.splits option.splits)

lemma buildHeader_update [simp]:
  "buildHeader X (dw\<lparr>locked := a\<rparr>) = buildHeader X dw"
  "buildHeader X (dw\<lparr>buf := b\<rparr>) = buildHeader X dw"
  "buildHeader X (dw\<lparr>out := c\<rparr>) = buildHeader X dw"
  "buildHeader X (dw\<lparr>bytesWritten := d\<rparr>) = buildHeader X dw"
  "buildHeader X (dw\<lparr>rowCount := e\<rparr>) = buildHeader X dw"
  "buildHeader X (dw\<lparr>maxColLengths := f\<rparr>) = buildHeader X dw"
  "buildHeader X (dw\<lparr>doneClosed := g\<rparr>) = buildHeader X dw"
  "buildHeader X (dw\<lparr>waitMode := h\<rparr>) = buildHeader X dw"
  by (simp_all add: buildHeader_def Let_def)

lemma trailer_update [simp]:
  "trailer X (dw\<lparr>locked := a\<rparr>) = trailer X dw"
  "trailer X (dw\<lparr>buf := b\<rparr>) = trailer X dw"
  "trailer X (dw\<lparr>out := c\<rparr>) = trailer X dw"
  "trailer X (dw\<lparr>bytesWritten := d\<rparr>) = trailer X dw"
  "trailer X (dw\<lparr>rowCount := e\<rparr>) = trailer X dw"
  "trailer X (dw\<lparr>maxColLengths := f\<rparr>) = trailer X dw"
  "trailer X (dw\<lparr>doneClosed := g\<rparr>) = trailer X dw"
  "trailer X (dw\<lparr>waitMode := h\<rparr>) = trailer X dw"
  "trailer X (dw\<lparr>cols := i\<rparr>) = trailer X dw"
  by (simp_all add: trailer_def)

lemma Close_eq:
  "Close X dw =
     (case tryFlush X (dw\<lparr>buf := buf dw @ trailer X dw\<rparr>) of
           Blocked \<Rightarrow> Blocked
         | Panic \<Rightarrow> Panic
         | Ok (Some err, dw) \<Rightarrow> Ok (Some err, dw)
         | Ok (None, dw) \<Rightarrow>
             (if doneClosed dw then Panic else Ok (None, dw\<lparr>doneClosed := True\<rparr>)))"
  by (simp add: Close_def trailer_def Let_def)

lemma unlocked_id: "\<not> locked dw \<Longrightarrow> dw\<lparr>locked := False\<rparr> = dw"
  by (cases dw) simp

lemma succeeds_Suc: "succeeds (Suc k) w \<Longrightarrow> succeeds k w"
  using set_take_subset_set_take [of k "Suc k" "script w"]
  by (auto simp: succeeds_def list_all_iff)

lemma reliable_tl: "reliable w \<Longrightarrow> script w' = tl (script w) \<Longrightarrow> reliable w'"
  by (cases "script w") (simp_all add: reliable_def)

lemma reliable_succeeds: "reliable w \<Longrightarrow> succeeds k w"
  by (auto simp: succeeds_def reliable_def list_all_iff dest: in_set_takeD)

lemma tryFlush_ok:
  assumes "\<not> locked dw" and "out dw = Some w" and "succeeds (writesDue dw) w"
  shows "\<exists>w'. tryFlush X dw =
           Ok (None, dw\<lparr>out := Some w',
                  bytesWritten := bytesWritten dw +
                    (if bytesWritten dw = 0 then int (length (buildHeader X dw)) else 0) +
                    int (length (buf dw)),
                  buf := []\<rparr>) \<and>
         received w' = received w @ (if bytesWritten dw = 0 then buildHeader X dw else []) @ buf dw \<and>
         (reliable w \<longrightarrow> reliable w')"
proof (cases "bytesWritten dw = 0")
  case True
  have s2: "succeeds (Suc (Suc 0)) w"
    using assms(3) True by (simp add: writesDue_def numeral_2_eq_2)
  from sink_Write_ok [OF s2, of "buildHeader X dw"] obtain w1 where
    w1: "sink_Write w (buildHeader X dw) = ((length (buildHeader X dw), None), w1)"
        "received w1 = received w @ buildHeader X dw" "succeeds (Suc 0) w1"
        "script w1 = tl (script w)" by blast
  from sink_Write_ok [OF w1(3), of "buf dw"] obtain w2 where
    w2: "sink_Write w1 (buf dw) = ((length (buf dw), None), w2)"
        "received w2 = received w1 @ buf dw" "script w2 = tl (script w1)" by blast
  have r: "reliable w \<longrightarrow> reliable w2"
    using w1(4) w2(3) reliable_tl [of w w1] reliable_tl [of w1 w2] by blast
  show ?thesis
    using assms True w1 w2 r
    by (intro exI [of _ w2]) (simp add: tryFlush_def flushBuffer_def Let_def)
next
  case False
  have s1: "succeeds (Suc 0) w"
    using assms(3) False by (simp add: writesDue_def)
  from sink_Write_ok [OF s1, of "buf dw"] obtain w2 where
    w2: "sink_Write w (buf dw) = ((length (buf dw), None), w2)"
        "received w2 = received w @ buf dw" "script w2 = tl (script w)" by blast
  have r: "reliable w \<longrightarrow> reliable w2"
    using w2(3) reliable_tl [of w w2] by blast
  show ?thesis
    using assms False w2 r
    by (intro exI [of _ w2]) (simp add: tryFlush_def flushBuffer_def Let_def)
qed

lemma tryFlush_error:
  assumes "tryFlush X d = Ok (Some e, d')"
  shows "buf d' = buf d \<and>
         (\<exists>w w' pre k. out d = Some w \<and> out d' = Some w' \<and>
            script w = pre @ Some (k, e) # script w' \<and> (pre = [] \<or> pre = [None]))"
proof -
  have nl: "\<not> locked d" using assms by (auto simp: tryFlush_def split: if_splits)
  then obtain w where w: "out d = Some w"
    using assms by (cases "out d") (auto simp: tryFlush_def)
  show ?thesis
  proof (cases "bytesWritten d = 0")
    case False
    obtain n err w' where sw: "sink_Write w (buf d) = ((n, err), w')"
      by (metis prod.exhaust)
    with assms nl w False have "err = Some e" "d' = d\<lparr>out := Some w', locked := False\<rparr>"
      by (auto simp: tryFlush_def flushBuffer_def Let_def split: option.splits)
    with sw sink_Write_error [of w "buf d" n e w'] w show ?thesis by auto
  next
    case True
    obtain n err w1 where s1: "sink_Write w (buildHeader X d) = ((n, err), w1)"
      by (metis prod.exhaust)
    show ?thesis
    proof (cases err)
      case (Some e1)
      with assms nl w True s1 have "e1 = e" "d' = d\<lparr>locked := True, out := Some w1\<rparr>"
        by (auto simp: tryFlush_def Let_def)
      with s1 Some sink_Write_error [of w "buildHeader X d" n e w1] w show ?thesis by auto
    next
      case None
      obtain n2 err2 w2 where s2: "sink_Write w1 (buf d) = ((n2, err2), w2)"
        by (metis prod.exhaust)
      with assms nl w True s1 None have
        "err2 = Some e" "buf d' = buf d" "out d' = Some w2"
        by (auto simp: tryFlush_def flushBuffer_def Let_def split: option.splits)
      moreover from s1 None sink_Write_no_error [of w "buildHeader X d" n w1]
      have "script w = [] \<and> script w1 = [] \<or> script w = None # script w1" by simp
      moreover from s2 \<open>err2 = Some e\<close> sink_Write_error [of w1 "buf d" n2 e w2]
      obtain k where "script w1 = Some (k, e) # script w2" by auto
      ultimately show ?thesis using w by auto
    qed
  qed
qed


section \<open>A failed header write\<close>

text \<open>
  Claim C9. Take a writer whose mutex is free and that has a sink. If nothing has been
  delivered yet and the write of the header fails, \<^verbatim>\<open>tryFlush\<close> returns that error with the
  mutex still held, \<^verbatim>\<open>bytesWritten\<close> still 0 and the buffer as it was (only the mutex and
  the sink differ from the state before); the next \<^verbatim>\<open>tryFlush\<close> then never returns. When it
  is the write of the buffer that fails, after an earlier flush or right after a successful
  header write, the mutex is released before the error is returned.
\<close>

theorem tryFlush_header_error_holds_lock:
  assumes "\<not> locked dw" and "out dw = Some w"
  shows "(bytesWritten dw = 0 \<longrightarrow> sink_Write w (buildHeader X dw) = ((n, Some e), w') \<longrightarrow>
            tryFlush X dw = Ok (Some e, dw\<lparr>locked := True, out := Some w'\<rparr>) \<and>
            tryFlush X (dw\<lparr>locked := True, out := Some w'\<rparr>) = Blocked) \<and>
         (bytesWritten dw \<noteq> 0 \<longrightarrow> sink_Write w (buf dw) = ((n, Some e), w') \<longrightarrow>
            tryFlush X dw = Ok (Some e, dw\<lparr>locked := False, out := Some w'\<rparr>)) \<and>
         (bytesWritten dw = 0 \<longrightarrow> sink_Write w (buildHeader X dw) = ((m, None), wh) \<longrightarrow>
            sink_Write wh (buf dw) = ((n, Some e), w') \<longrightarrow>
            tryFlush X dw =
              Ok (Some e, dw\<lparr>locked := False, bytesWritten := int m, out := Some w'\<rparr>))"
  using assms by (simp add: tryFlush_def flushBuffer_def Let_def)


lemma testX_header: "buildHeader testX (testDW m) = ''<?xml?><worksheet xmlns=\"m\"<sheetData>''"
  by (simp add: buildHeader_def testX_def testDW_def Let_def)

theorem tryFlush_header_error_holds_lock_witness:
  "(let dw = (testDW 8)\<lparr>buf := ''abc'', out := Some (testSink [Some (3, SinkError)])\<rparr> in
      \<not> locked dw \<and> bytesWritten dw = 0 \<and>
      tryFlush testX dw =
        Ok (Some SinkError, dw\<lparr>locked := True, out := Some \<lparr>received = ''<?x'', script = []\<rparr>\<rparr>) \<and>
      tryFlush testX (dw\<lparr>locked := True, out := Some \<lparr>received = ''<?x'', script = []\<rparr>\<rparr>) =
        Blocked) \<and>
   (let dw = (testDW 8)\<lparr>buf := ''abc'', bytesWritten := 5,
                          out := Some (testSink [Some (2, SinkError)])\<rparr> in
      \<not> locked dw \<and> bytesWritten dw \<noteq> 0 \<and>
      tryFlush testX dw =
        Ok (Some SinkError, dw\<lparr>locked := False, out := Some \<lparr>received = ''ab'', script = []\<rparr>\<rparr>)) \<and>
   (let dw = (testDW 8)\<lparr>buf := ''abc'', out := Some (testSink [None, Some (1, SinkError)])\<rparr> in
      \<not> locked dw \<and> bytesWritten dw = 0 \<and>
      tryFlush testX dw =
        Ok (Some SinkError,
            dw\<lparr>locked := False, bytesWritten := 38,
               out := Some \<lparr>received = ''<?xml?><worksheet xmlns=\"m\"<sheetData>a'',
                            script = []\<rparr>\<rparr>))"
proof -
  define d1 where "d1 = (testDW 8)\<lparr>buf := ''abc'', out := Some (testSink [Some (3, SinkError)])\<rparr>"
  define d2 where "d2 = (testDW 8)\<lparr>buf := ''abc'', bytesWritten := 5,
                          out := Some (testSink [Some (2, SinkError)])\<rparr>"
  define d3 where "d3 = (testDW 8)\<lparr>buf := ''abc'',
                          out := Some (testSink [None, Some (1, SinkError)])\<rparr>"
  have a: "\<not> locked d1" "out d1 = Some (testSink [Some (3, SinkError)])" "bytesWritten d1 = 0"
    by (simp_all add: d1_def testDW_def)
  have h: "buildHeader testX d1 = ''<?xml?><worksheet xmlns=\"m\"<sheetData>''"
    by (simp add: d1_def testX_header)
  have b: "sink_Write (testSink [Some (3, SinkError)]) (buildHeader testX d1) =
             ((3, Some SinkError), \<lparr>received = ''<?x'', script = []\<rparr>)"
    by (simp add: h sink_Write_def testSink_def)
  have c: "\<not> locked d2" "out d2 = Some (testSink [Some (2, SinkError)])" "bytesWritten d2 \<noteq> 0"
    by (simp_all add: d2_def testDW_def)
  have d: "sink_Write (testSink [Some (2, SinkError)]) (buf d2) =
             ((2, Some SinkError), \<lparr>received = ''ab'', script = []\<rparr>)"
    by (simp add: d2_def sink_Write_def testSink_def)
  have e: "\<not> locked d3" "out d3 = Some (testSink [None, Some (1, SinkError)])"
    "bytesWritten d3 = 0"
    by (simp_all add: d3_def testDW_def)
  have h3: "buildHeader testX d3 = ''<?xml?><worksheet xmlns=\"m\"<sheetData>''"
    by (simp add: d3_def testX_header)
  have f: "sink_Write (testSink [None, Some (1, SinkError)]) (buildHeader testX d3) =
             ((38, None), \<lparr>received = ''<?xml?><worksheet xmlns=\"m\"<sheetData>'',
                             script = [Some (1, SinkError)]\<rparr>)"
    by (simp add: h3 sink_Write_def testSink_def)
  have g: "sink_Write \<lparr>received = ''<?xml?><worksheet xmlns=\"m\"<sheetData>'',
                         script = [Some (1, SinkError)]\<rparr> (buf d3) =
             ((1, Some SinkError), \<lparr>received = ''<?xml?><worksheet xmlns=\"m\"<sheetData>a'',
                                     script = []\<rparr>)"
    by (simp add: d3_def sink_Write_def)
  from tryFlush_header_error_holds_lock [OF a(1) a(2),
      where X = testX and n = 3 and e = SinkError and w' = "\<lparr>received = ''<?x'', script = []\<rparr>"]
    a(3) b
  have r1: "tryFlush testX d1 =
        Ok (Some SinkError, d1\<lparr>locked := True, out := Some \<lparr>received = ''<?x'', script = []\<rparr>\<rparr>) \<and>
      tryFlush testX (d1\<lparr>locked := True, out := Some \<lparr>received = ''<?x'', script = []\<rparr>\<rparr>) =
        Blocked" by blast
  from tryFlush_header_error_holds_lock [OF c(1) c(2),
      where X = testX and n = 2 and e = SinkError and w' = "\<lparr>received = ''ab'', script = []\<rparr>"]
    c(3) d
  have r2: "tryFlush testX d2 =
        Ok (Some SinkError, d2\<lparr>locked := False, out := Some \<lparr>received = ''ab'', script = []\<rparr>\<rparr>)"
    by blast
  from tryFlush_header_error_holds_lock [OF e(1) e(2),
      where X = testX and n = 1 and e = SinkError and m = 38
        and wh = "\<lparr>received = ''<?xml?><worksheet xmlns=\"m\"<sheetData>'',
                   script = [Some (1, SinkError)]\<rparr>"
        and w' = "\<lparr>received = ''<?xml?><worksheet xmlns=\"m\"<sheetData>a'', script = []\<rparr>"]
    e(3) f g
  have r3: "tryFlush testX d3 =
        Ok (Some SinkError,
            d3\<lparr>locked := False, bytesWritten := 38,
               out := Some \<lparr>received = ''<?xml?><worksheet xmlns=\"m\"<sheetData>a'',
                            script = []\<rparr>\<rparr>)"
    by simp
  show ?thesis
    unfolding Let_def d1_def [symmetric] d2_def [symmetric] d3_def [symmetric]
    using a c e r1 r2 r3 by blast
qed

lemma tryFlush_error_fields:
  assumes "tryFlush X d = Ok (Some e, d')"
  shows "doneClosed d' = doneClosed d \<and> rowCount d' = rowCount d \<and> cols d' = cols d \<and>
         waitMode d' = waitMode d \<and> maxColLengths d' = maxColLengths d"
  using assms
  by (auto simp: tryFlush_def flushBuffer_def Let_def
           split: if_splits option.splits prod.splits)

section \<open>A failed write\<close>

text \<open>
  Let a flush fail with the error \<open>e\<close>. The buffer after the flush is the buffer before it:
  nothing is truncated. The failing \<^verbatim>\<open>Write\<close> is the last call the flush makes on the sink
  (it comes first, or right after the header's write), so the flush is not attempted again.
  An \<^verbatim>\<open>AddRow\<close> whose row was encoded and whose buffer is over the threshold outside wait
  mode returns \<open>e\<close> with the length of the whole buffer, which still ends with the new row; a
  \<^verbatim>\<open>Close\<close> returns \<open>e\<close> with the closing elements still in the buffer and the completion
  signal not raised. When the mutex is free after the failure, as it is after a failed write
  of the buffer, a later flush to a sink whose writes succeed delivers the whole buffer
  (behind what the failed write has already let through).
\<close>

lemma tryFlush_error_keeps_buffer:
  assumes "tryFlush X d = Ok (Some e, d')"
  shows "buf d' = buf d \<and>
         (\<exists>w w' pre k. out d = Some w \<and> out d' = Some w' \<and>
            script w = pre @ Some (k, e) # script w' \<and> (pre = [] \<or> pre = [None])) \<and>
         (AddRow_row X dw vals opts = Ok (None, d) \<longrightarrow>
            maxBufferSize d < int (length (buf d)) \<longrightarrow> \<not> waitMode d \<longrightarrow>
            AddRow X dw vals opts = Ok ((int (length (buf d')), Some e), d') \<and>
            buf d' = buf dw @ rowText X (incr X (rowCount dw)) vals opts) \<and>
         (d = dc\<lparr>buf := buf dc @ trailer X dc\<rparr> \<longrightarrow>
            Close X dc = Ok (Some e, d') \<and> buf d' = buf dc @ trailer X dc \<and>
            doneClosed d' = doneClosed dc) \<and>
         (\<not> locked d' \<longrightarrow> out d' = Some v \<longrightarrow> succeeds (writesDue d') v \<longrightarrow>
            (\<exists>d'' v'. tryFlush X d' = Ok (None, d'') \<and> buf d'' = [] \<and> out d'' = Some v' \<and>
               received v' =
                 received v @ (if bytesWritten d' = 0 then buildHeader X d' else []) @ buf d))"
proof -
  note f = tryFlush_error [OF assms] tryFlush_error_fields [OF assms]
  have "buf d' = buf dw @ rowText X (incr X (rowCount dw)) vals opts"
    if "AddRow_row X dw vals opts = Ok (None, d)"
    using that f AddRow_row_eq [of X dw vals opts] by auto
  moreover have "AddRow X dw vals opts = Ok ((int (length (buf d')), Some e), d')"
    if "AddRow_row X dw vals opts = Ok (None, d)" "maxBufferSize d < int (length (buf d))"
       "\<not> waitMode d"
    using that f assms by (simp add: AddRow_def)
  moreover have "Close X dc = Ok (Some e, d')" if "d = dc\<lparr>buf := buf dc @ trailer X dc\<rparr>"
    using that assms by (simp add: Close_eq)
  moreover have "buf d' = buf dc @ trailer X dc \<and> doneClosed d' = doneClosed dc"
    if "d = dc\<lparr>buf := buf dc @ trailer X dc\<rparr>"
    using that f by simp
  moreover have "\<exists>d'' v'. tryFlush X d' = Ok (None, d'') \<and> buf d'' = [] \<and> out d'' = Some v' \<and>
               received v' =
                 received v @ (if bytesWritten d' = 0 then buildHeader X d' else []) @ buf d"
    if "\<not> locked d'" "out d' = Some v" "succeeds (writesDue d') v"
    using tryFlush_ok [OF that, of X] f by auto
  ultimately show ?thesis using f by blast
qed

text \<open>
  Claim C4. After a failed write of the header the caller cannot retry. A fresh writer with
  the threshold 8 is given a sink whose first \<^verbatim>\<open>Write\<close>, the header's, accepts three bytes and
  fails, and whose later writes would all succeed. The first \<^verbatim>\<open>AddRow\<close> encodes its row,
  finds the buffer over the threshold and flushes: it returns the sink's error with the
  length of the buffer, 42, and the buffer still holds the whole row. But \<^verbatim>\<open>tryFlush\<close> has
  returned without releasing the mutex: the next \<^verbatim>\<open>AddRow\<close>, \<^verbatim>\<open>Close\<close> and \<^verbatim>\<open>WriteTo\<close> with
  another sink all wait for it and never return. The same holds when the failing flush is
  the one of \<^verbatim>\<open>Close\<close>: it returns the error, and a second \<^verbatim>\<open>Close\<close> never returns.
\<close>

theorem flush_error_retry_blocks:
  "(let w = testSink [Some (3, SinkError)];
        row = [cell 0 (TStr ''foo'')];
        d1 = (testDW 8)
               \<lparr>locked := True, out := Some \<lparr>received = ''<?x'', script = []\<rparr>,
                rowCount := 1, maxColLengths := [3],
                buf := ''<row r=\"1\"><c t=\"str\"><v>foo</v></c></row>''\<rparr>;
        c1 = (testDW 8)
               \<lparr>locked := True, out := Some \<lparr>received = ''<?x'', script = []\<rparr>,
                buf := ''</sheetData></worksheet>''\<rparr>
    in WriteTo testX (testDW 8) w = Attached ((testDW 8)\<lparr>out := Some w\<rparr>) \<and>
       AddRow testX ((testDW 8)\<lparr>out := Some w\<rparr>) row [] = Ok ((42, Some SinkError), d1) \<and>
       AddRow testX d1 row [] = Blocked \<and>
       Close testX d1 = Blocked \<and>
       WriteTo testX d1 (testSink []) = LockBlocked \<and>
       Close testX ((testDW 8)\<lparr>out := Some w\<rparr>) = Ok (Some SinkError, c1) \<and>
       bytesWritten c1 = 0 \<and> \<not> doneClosed c1 \<and>
       Close testX c1 = Blocked)"
  by code_simp

section \<open>Wait mode\<close>

text \<open>
  Claim C7. \<^verbatim>\<open>SetWait(true)\<close> returns an error exactly when \<^verbatim>\<open>bytesWritten > 0\<close>, and then
  changes nothing; otherwise it sets the flag. \<^verbatim>\<open>SetWait(false)\<close> clears the flag and returns
  no error. In wait mode \<^verbatim>\<open>AddRow\<close> always returns, with the length of the whole buffer
  whatever the threshold is, and leaves the sink and \<^verbatim>\<open>bytesWritten\<close> as they were. After
  \<^verbatim>\<open>SetWait(false)\<close>, an \<^verbatim>\<open>AddRow\<close> that encodes its row, on a writer with a free mutex and a
  sink whose writes of this flush succeed, with the buffer over the threshold, returns the count 0
  and no error: the buffer is empty and the sink has received the header, if it was still due,
  and the whole buffer including the new row.
\<close>

theorem wait_mode:
  "((fst (SetWait dw True) \<noteq> None) = (bytesWritten dw > 0)) \<and>
   SetWait dw True =
     (if bytesWritten dw > 0 then (Some WaitModeAfterWrite, dw) else (None, dw\<lparr>waitMode := True\<rparr>)) \<and>
   SetWait dw False = (None, dw\<lparr>waitMode := False\<rparr>) \<and>
   (waitMode dw \<longrightarrow>
      (\<exists>dw'. AddRow X dw vals opts =
               Ok ((int (length (buf dw @ rowText X (incr X (rowCount dw)) vals opts)),
                    rowError X vals opts), dw') \<and>
             buf dw' = buf dw @ rowText X (incr X (rowCount dw)) vals opts \<and>
             out dw' = out dw \<and> bytesWritten dw' = bytesWritten dw)) \<and>
   (\<not> locked dw \<and> out dw = Some w \<and> succeeds (writesDue dw) w \<and> rowError X vals opts = None \<and>
    maxBufferSize dw < int (length (buf dw @ rowText X (incr X (rowCount dw)) vals opts)) \<longrightarrow>
      (\<exists>dw' w'. AddRow X (snd (SetWait dw False)) vals opts = Ok ((0, None), dw') \<and>
             buf dw' = [] \<and> out dw' = Some w' \<and>
             received w' =
               received w @ (if bytesWritten dw = 0 then buildHeader X dw else []) @
               buf dw @ rowText X (incr X (rowCount dw)) vals opts))"
proof -
  have a: "(fst (SetWait dw True) \<noteq> None) = (bytesWritten dw > 0)"
    by (simp add: SetWait_def)
  have b: "SetWait dw True =
     (if bytesWritten dw > 0 then (Some WaitModeAfterWrite, dw) else (None, dw\<lparr>waitMode := True\<rparr>))"
    by (simp add: SetWait_def)
  have c: "SetWait dw False = (None, dw\<lparr>waitMode := False\<rparr>)"
    by (simp add: SetWait_def)
  have d: "\<exists>dw'. AddRow X dw vals opts =
               Ok ((int (length (buf dw @ rowText X (incr X (rowCount dw)) vals opts)),
                    rowError X vals opts), dw') \<and>
             buf dw' = buf dw @ rowText X (incr X (rowCount dw)) vals opts \<and>
             out dw' = out dw \<and> bytesWritten dw' = bytesWritten dw"
    if "waitMode dw"
  proof -
    obtain m where "AddRow_row X dw vals opts =
         Ok (rowError X vals opts,
             dw\<lparr>rowCount := incr X (rowCount dw), maxColLengths := m,
                buf := buf dw @ rowText X (incr X (rowCount dw)) vals opts\<rparr>)"
      by (rule AddRow_row_cases)
    with that show ?thesis
      by (cases "rowError X vals opts") (simp_all add: AddRow_def)
  qed
  have e: "\<exists>dw' w'. AddRow X (snd (SetWait dw False)) vals opts = Ok ((0, None), dw') \<and>
             buf dw' = [] \<and> out dw' = Some w' \<and>
             received w' =
               received w @ (if bytesWritten dw = 0 then buildHeader X dw else []) @
               buf dw @ rowText X (incr X (rowCount dw)) vals opts"
    if h: "\<not> locked dw" "out dw = Some w" "succeeds (writesDue dw) w" "rowError X vals opts = None"
       "maxBufferSize dw < int (length (buf dw @ rowText X (incr X (rowCount dw)) vals opts))"
  proof -
    let ?d0 = "dw\<lparr>waitMode := False\<rparr>"
    obtain m where r: "AddRow_row X ?d0 vals opts =
         Ok (rowError X vals opts,
             ?d0\<lparr>rowCount := incr X (rowCount ?d0), maxColLengths := m,
                buf := buf ?d0 @ rowText X (incr X (rowCount ?d0)) vals opts\<rparr>)"
      by (rule AddRow_row_cases)
    let ?d1 = "?d0\<lparr>rowCount := incr X (rowCount ?d0), maxColLengths := m,
                buf := buf ?d0 @ rowText X (incr X (rowCount ?d0)) vals opts\<rparr>"
    have "\<not> locked ?d1" "out ?d1 = Some w" "succeeds (writesDue ?d1) w"
      using h by (simp_all add: writesDue_def)
    from tryFlush_ok [OF this, of X] obtain w' where
      f: "tryFlush X ?d1 =
           Ok (None, ?d1\<lparr>out := Some w',
                  bytesWritten := bytesWritten ?d1 +
                    (if bytesWritten ?d1 = 0 then int (length (buildHeader X ?d1)) else 0) +
                    int (length (buf ?d1)),
                  buf := []\<rparr>)"
      and rc: "received w' =
           received w @ (if bytesWritten ?d1 = 0 then buildHeader X ?d1 else []) @ buf ?d1"
      by blast
    show ?thesis
      using h r f rc by (simp add: AddRow_def c)
  qed
  from a b c d e show ?thesis by blast
qed


lemma testX_foo_text:
  "rowText testX 1 [cell 0 (TStr ''foo'')] [] = ''<row r=\"1\"><c t=\"str\"><v>foo</v></c></row>''"
  "rowText testX 2 [cell 0 (TStr ''foo'')] [] = ''<row r=\"2\"><c t=\"str\"><v>foo</v></c></row>''"
  "rowError testX [cell 0 (TStr ''foo'')] [] = None"
  by (simp_all add: rowText_def rowError_def testX_def cell_def newCell_def appendCellNoRef_def
        appendEscapedString_def AppendInt_def FormatInt_small Let_def)

theorem wait_mode_witness:
  "(let dw = (testDW 8)\<lparr>out := Some (testSink []), waitMode := True\<rparr> in
      waitMode dw \<and> maxBufferSize dw < 42 \<and>
      (\<exists>dw'. AddRow testX dw [cell 0 (TStr ''foo'')] [] = Ok ((42, None), dw') \<and>
             out dw' = out dw \<and> bytesWritten dw' = bytesWritten dw)) \<and>
   (let dw = (testDW 8)\<lparr>out := Some (testSink []), waitMode := True, rowCount := 1,
                         buf := ''<row r=\"1\"><c t=\"str\"><v>foo</v></c></row>''\<rparr> in
      \<not> locked dw \<and> succeeds (writesDue dw) (testSink []) \<and>
      (\<exists>dw' w'. AddRow testX (snd (SetWait dw False)) [cell 0 (TStr ''foo'')] [] =
                  Ok ((0, None), dw') \<and>
             buf dw' = [] \<and> out dw' = Some w' \<and>
             received w' =
               ''<?xml?><worksheet xmlns=\"m\"<sheetData>'' @
               ''<row r=\"1\"><c t=\"str\"><v>foo</v></c></row>'' @
               ''<row r=\"2\"><c t=\"str\"><v>foo</v></c></row>''))"
proof -
  define d1 where "d1 = (testDW 8)\<lparr>out := Some (testSink []), waitMode := True\<rparr>"
  define d2 where "d2 = d1\<lparr>rowCount := 1,
                         buf := ''<row r=\"1\"><c t=\"str\"><v>foo</v></c></row>''\<rparr>"
  have a: "waitMode d1" "maxBufferSize d1 < 42" "rowCount d1 = 0" "buf d1 = []"
    by (simp_all add: d1_def testDW_def)
  have b: "\<not> locked d2" "out d2 = Some (testSink [])" "succeeds (writesDue d2) (testSink [])"
    "rowCount d2 = 1" "buf d2 = ''<row r=\"1\"><c t=\"str\"><v>foo</v></c></row>''"
    "bytesWritten d2 = 0" "maxBufferSize d2 = 8" "received (testSink []) = []"
    by (simp_all add: d2_def d1_def testDW_def testSink_def succeeds_def)
  have h: "buildHeader testX d2 = ''<?xml?><worksheet xmlns=\"m\"<sheetData>''"
    by (simp add: d2_def d1_def testX_header)
  from wait_mode [of d1 testX "[cell 0 (TStr ''foo'')]" "[]"] a
  have r1: "\<exists>dw'. AddRow testX d1 [cell 0 (TStr ''foo'')] [] = Ok ((42, None), dw') \<and>
             out dw' = out d1 \<and> bytesWritten dw' = bytesWritten d1"
    by (simp add: testX_foo_text) blast
  have p: "\<not> locked d2 \<and> out d2 = Some (testSink []) \<and> succeeds (writesDue d2) (testSink []) \<and>
      rowError testX [cell 0 (TStr ''foo'')] [] = None \<and>
      maxBufferSize d2 < int (length (buf d2 @ rowText testX (incr testX (rowCount d2)) [cell 0 (TStr ''foo'')] []))"
    using b by (simp add: testX_foo_text)
  from wait_mode [of d2 testX "[cell 0 (TStr ''foo'')]" "[]" "testSink []",
      THEN conjunct2, THEN conjunct2, THEN conjunct2, THEN conjunct2, rule_format, OF p]
  have r2: "\<exists>dw' w'. AddRow testX (snd (SetWait d2 False)) [cell 0 (TStr ''foo'')] [] =
                  Ok ((0, None), dw') \<and>
             buf dw' = [] \<and> out dw' = Some w' \<and>
             received w' =
               ''<?xml?><worksheet xmlns=\"m\"<sheetData>'' @
               ''<row r=\"1\"><c t=\"str\"><v>foo</v></c></row>'' @
               ''<row r=\"2\"><c t=\"str\"><v>foo</v></c></row>''"
    by (simp add: testX_foo_text h b)
  show ?thesis
    unfolding Let_def d1_def [symmetric] d2_def [symmetric]
    using a b r1 r2 by blast
qed

section \<open>A value the encoder rejects\<close>

lemma cells_before_error:
  assumes "\<forall>v \<in> set pre. \<not> isl (setCellValFunc X (newCell v) (Value v))"
  shows "cellsText X (pre @ rest) =
           concat (map (\<lambda>v. appendCellNoRef X [] (projr (setCellValFunc X (newCell v) (Value v)))) pre) @
           cellsText X rest \<and>
         cellsError X (pre @ rest) = cellsError X rest"
  using assms
proof (induction pre)
  case Nil
  show ?case by simp
next
  case (Cons v pre)
  then show ?case by (cases "setCellValFunc X (newCell v) (Value v)") simp_all
qed

text \<open>
  Claim C8. Let the row options be accepted, let every cell of \<open>pre\<close> be encoded and let the
  encoder reject the next cell with the error \<open>e\<close>. Then \<^verbatim>\<open>AddRow\<close> returns \<open>e\<close> and the length
  of the buffer, and the buffer has grown by the start tag of the row, the cells of \<open>pre\<close> in
  order and the closing tag \<^verbatim>\<open></row>\<close>: nothing of the rejected cell or of the cells behind
  it. This is the buffer that the complete row \<open>pre\<close> leaves, so the buffer is the same prefix
  of the document as after a successful call. No flush is attempted.
\<close>

theorem AddRow_value_error:
  assumes "opts = [] \<or> \<not> isl (marshalRowAttrs X opts)"
    and "\<forall>v \<in> set pre. \<not> isl (setCellValFunc X (newCell v) (Value v))"
    and "setCellValFunc X (newCell bad) (Value bad) = Inl e"
  shows "\<exists>dw' dw''.
           AddRow X dw (pre @ bad # post) opts = Ok ((int (length (buf dw')), Some e), dw') \<and>
           buf dw' =
             buf dw @ ''<row r=\"'' @ FormatInt (incr X (rowCount dw)) @ ''\"'' @
             (if opts = [] then [] else projr (marshalRowAttrs X opts)) @ ''>'' @
             concat (map (\<lambda>v. appendCellNoRef X []
                            (projr (setCellValFunc X (newCell v) (Value v)))) pre) @
             ''</row>'' \<and>
           AddRow_row X dw pre opts = Ok (None, dw'') \<and> buf dw'' = buf dw' \<and>
           rowCount dw' = incr X (rowCount dw) \<and> out dw' = out dw \<and>
           bytesWritten dw' = bytesWritten dw"
proof -
  let ?cells = "concat (map (\<lambda>v. appendCellNoRef X []
                            (projr (setCellValFunc X (newCell v) (Value v)))) pre)"
  let ?attrs = "if opts = [] then [] else projr (marshalRowAttrs X opts)"
  have m: "(if length opts > 0 then marshalRowAttrs X opts else Inr []) = Inr ?attrs"
    using assms(1) by (cases "marshalRowAttrs X opts") auto
  have c1: "cellsText X (pre @ bad # post) = ?cells @ ''</row>''"
       "cellsError X (pre @ bad # post) = Some e"
    using cells_before_error [OF assms(2), of "bad # post"] assms(3) by simp_all
  have c2: "cellsText X pre = ?cells" "cellsError X pre = None"
    using cells_before_error [OF assms(2), of "[]"] by simp_all
  have t1: "rowText X (incr X (rowCount dw)) (pre @ bad # post) opts =
          ''<row r=\"'' @ FormatInt (incr X (rowCount dw)) @ ''\"'' @ ?attrs @ ''>'' @ ?cells @ ''</row>''"
    and e1: "rowError X (pre @ bad # post) opts = Some e"
    by (simp_all add: rowText_def rowError_def m c1 del: length_greater_0_conv)
  have t2: "rowText X (incr X (rowCount dw)) pre opts =
          ''<row r=\"'' @ FormatInt (incr X (rowCount dw)) @ ''\"'' @ ?attrs @ ''>'' @ ?cells @ ''</row>''"
    and e2: "rowError X pre opts = None"
    by (simp_all add: rowText_def rowError_def m c2 del: length_greater_0_conv)
  obtain m1 where r1: "AddRow_row X dw (pre @ bad # post) opts =
         Ok (rowError X (pre @ bad # post) opts,
             dw\<lparr>rowCount := incr X (rowCount dw), maxColLengths := m1,
                buf := buf dw @ rowText X (incr X (rowCount dw)) (pre @ bad # post) opts\<rparr>)"
    by (rule AddRow_row_cases)
  obtain m2 where r2: "AddRow_row X dw pre opts =
         Ok (rowError X pre opts,
             dw\<lparr>rowCount := incr X (rowCount dw), maxColLengths := m2,
                buf := buf dw @ rowText X (incr X (rowCount dw)) pre opts\<rparr>)"
    by (rule AddRow_row_cases)
  show ?thesis
    apply (rule exI [of _ "dw\<lparr>rowCount := incr X (rowCount dw), maxColLengths := m1,
                buf := buf dw @ rowText X (incr X (rowCount dw)) (pre @ bad # post) opts\<rparr>"])
    apply (rule exI [of _ "dw\<lparr>rowCount := incr X (rowCount dw), maxColLengths := m2,
                buf := buf dw @ rowText X (incr X (rowCount dw)) pre opts\<rparr>"])
    using r1 r2 e1 e2 t1 t2 by (simp add: AddRow_def)
qed


theorem AddRow_value_error_witness:
  "setCellValFunc testX (newCell (cell 0 (TStr ''foo''))) (TStr ''foo'') =
     Inr (newCell (cell 0 (TStr ''foo''))\<lparr>cT := ''str'', cV := ''foo''\<rparr>) \<and>
   setCellValFunc testX (newCell (cell 0 TBad)) TBad = Inl (External ''value'') \<and>
   (\<exists>dw'. AddRow testX (testDW 8) [cell 0 (TStr ''foo''), cell 0 TBad, cell 0 (TInt 123)] [] =
            Ok ((42, Some (External ''value'')), dw') \<and>
          buf dw' = ''<row r=\"1\"><c t=\"str\"><v>foo</v></c></row>'' \<and> out dw' = None)"
proof -
  have a: "([]::string list) = [] \<or> \<not> isl (marshalRowAttrs testX [])" by simp
  have f: "setCellValFunc testX (newCell (cell 0 (TStr ''foo''))) (TStr ''foo'') =
     Inr (newCell (cell 0 (TStr ''foo''))\<lparr>cT := ''str'', cV := ''foo''\<rparr>)"
    by (simp add: testX_def)
  have b: "\<forall>v \<in> set [cell 0 (TStr ''foo'')].
             \<not> isl (setCellValFunc testX (newCell v) (Value v))"
    using f by (simp add: cell_def)
  have c: "setCellValFunc testX (newCell (cell 0 TBad)) (Value (cell 0 TBad)) =
             Inl (External ''value'')"
    by (simp add: testX_def cell_def)
  have v: "Value (cell 0 (TStr ''foo'')) = TStr ''foo''" "Value (cell 0 TBad) = TBad"
    by (simp_all add: cell_def)
  have t: "appendCellNoRef testX [] (newCell (cell 0 (TStr ''foo''))\<lparr>cT := ''str'', cV := ''foo''\<rparr>) =
             ''<c t=\"str\"><v>foo</v></c>''"
    by (simp add: appendCellNoRef_def appendEscapedString_def testX_def newCell_def cell_def Let_def)
  from AddRow_value_error [OF a b c, of "testDW 8" "[cell 0 (TInt 123)]"]
  have "\<exists>dw'. AddRow testX (testDW 8) [cell 0 (TStr ''foo''), cell 0 TBad, cell 0 (TInt 123)] [] =
            Ok ((42, Some (External ''value'')), dw') \<and>
          buf dw' = ''<row r=\"1\"><c t=\"str\"><v>foo</v></c></row>'' \<and> out dw' = None"
    by (auto simp: v f t FormatInt_small testDW_def)
  with f c v show ?thesis by simp
qed

section \<open>Attaching a sink after the end\<close>

text \<open>
  Claim C5 as stated fails. After a sink was attached, a row added and \<^verbatim>\<open>Close\<close> returned
  without error, \<^verbatim>\<open>WriteTo\<close> with a new writer returns the error of the guard
  \<^verbatim>\<open>bytesWritten > 0\<close> and calls \<^verbatim>\<open>Write\<close> not at all. The guard also holds back bytes that
  are in the buffer: \<^verbatim>\<open>AddRow\<close> does not test the completion signal, and the row it buffers
  after \<^verbatim>\<open>Close\<close> is not written to the new writer.
\<close>

theorem WriteTo_after_flush_counterexample:
  "run testX (testDW 8)
     [CallWriteTo (testSink []), CallAddRow [cell 0 (TStr ''foo'')] [], CallClose] =
     Ok ([(1, ''<row r=\"1\"><c t=\"str\"><v>foo</v></c></row>'')], closedDW 8) \<and>
   doneClosed (closedDW 8) \<and>
   WriteTo testX (closedDW 8) (testSink []) = Replayed 0 (Some WriteToAfterFlush) (testSink []) \<and>
   run testX (testDW 1000)
     [CallWriteTo (testSink []), CallAddRow [cell 0 (TStr ''foo'')] [], CallClose,
      CallAddRow [cell 0 (TStr ''foo'')] []] =
     Ok ([(1, ''<row r=\"1\"><c t=\"str\"><v>foo</v></c></row>''),
          (2, ''<row r=\"2\"><c t=\"str\"><v>foo</v></c></row>'')],
         (closedDW 1000)\<lparr>rowCount := 2,
                           buf := ''<row r=\"2\"><c t=\"str\"><v>foo</v></c></row>''\<rparr>) \<and>
   WriteTo testX
     ((closedDW 1000)\<lparr>rowCount := 2, buf := ''<row r=\"2\"><c t=\"str\"><v>foo</v></c></row>''\<rparr>)
     (testSink []) = Replayed 0 (Some WriteToAfterFlush) (testSink [])"
  by code_simp


text \<open>
  Claim C5, amended. A \<^verbatim>\<open>Close\<close> that returns without error raises the completion signal.
  Once it is raised, \<^verbatim>\<open>WriteTo\<close> returns without waiting for the mutex or for the signal.
  When bytes have already been delivered to a sink (\<^verbatim>\<open>bytesWritten > 0\<close>) it writes nothing and
  returns 0 and an error. Otherwise it writes the header and then the buffered bytes to the
  supplied writer; when both writes succeed the writer has received the header followed by
  the buffer, and the call returns their length and no error.
\<close>

theorem WriteTo_after_Close:
  "(Close X d0 = Ok (None, d) \<longrightarrow> doneClosed d) \<and>
   (doneClosed dw \<longrightarrow>
      (\<exists>n err w'. WriteTo X dw w = Replayed n err w') \<and>
      (bytesWritten dw > 0 \<longrightarrow> WriteTo X dw w = Replayed 0 (Some WriteToAfterFlush) w) \<and>
      (\<not> bytesWritten dw > 0 \<and> succeeds 2 w \<longrightarrow>
         (\<exists>w'. WriteTo X dw w =
                  Replayed (int (length (buildHeader X dw) + length (buf dw))) None w' \<and>
               received w' = received w @ buildHeader X dw @ buf dw)))"
proof -
  have a: "doneClosed d" if "Close X d0 = Ok (None, d)"
    using that
    by (auto simp: Close_eq split: result.splits option.splits if_splits prod.splits)
  have b: "\<exists>n err w'. WriteTo X dw w = Replayed n err w'" if "doneClosed dw"
    using that by (auto simp: WriteTo_def split: prod.splits option.splits)
  have c: "WriteTo X dw w = Replayed 0 (Some WriteToAfterFlush) w"
    if "doneClosed dw" "bytesWritten dw > 0"
    using that by (simp add: WriteTo_def)
  have e: "\<exists>w'. WriteTo X dw w =
                  Replayed (int (length (buildHeader X dw) + length (buf dw))) None w' \<and>
               received w' = received w @ buildHeader X dw @ buf dw"
    if h: "doneClosed dw" "\<not> bytesWritten dw > 0" "succeeds 2 w"
  proof -
    have s2: "succeeds (Suc (Suc 0)) w" using h(3) by (simp add: numeral_2_eq_2)
    from sink_Write_ok [OF s2, of "buildHeader X dw"] obtain w1 where
      w1: "sink_Write w (buildHeader X dw) = ((length (buildHeader X dw), None), w1)"
          "received w1 = received w @ buildHeader X dw" "succeeds (Suc 0) w1" by blast
    from sink_Write_ok [OF w1(3), of "buf dw"] obtain w2 where
      w2: "sink_Write w1 (buf dw) = ((length (buf dw), None), w2)"
          "received w2 = received w1 @ buf dw" by blast
    show ?thesis using h w1 w2 by (intro exI [of _ w2]) (simp add: WriteTo_def)
  qed
  from a b c e show ?thesis by blast
qed

theorem WriteTo_after_Close_witness:
  "Close testX ((testDW 8)\<lparr>rowCount := 1, buf := ''<row r=\"1\"></row>''\<rparr>) =
     Ok (None, (testDW 8)\<lparr>rowCount := 1, buf := ''<row r=\"1\"></row></sheetData></worksheet>'',
                          doneClosed := True\<rparr>) \<and>
   doneClosed ((testDW 8)\<lparr>rowCount := 1, buf := ''<row r=\"1\"></row></sheetData></worksheet>'',
                          doneClosed := True\<rparr>) \<and>
   (\<exists>w'. WriteTo testX
           ((testDW 8)\<lparr>rowCount := 1, buf := ''<row r=\"1\"></row></sheetData></worksheet>'',
                        doneClosed := True\<rparr>) (testSink []) = Replayed 79 None w' \<and>
         received w' =
           ''<?xml?><worksheet xmlns=\"m\"<sheetData><row r=\"1\"></row></sheetData></worksheet>'') \<and>
   bytesWritten (closedDW 8) > 0 \<and>
   WriteTo testX (closedDW 8) (testSink []) = Replayed 0 (Some WriteToAfterFlush) (testSink [])"
proof -
  define d0 where "d0 = (testDW 8)\<lparr>rowCount := 1, buf := ''<row r=\"1\"></row>''\<rparr>"
  define d where "d = (testDW 8)\<lparr>rowCount := 1,
      buf := ''<row r=\"1\"></row></sheetData></worksheet>'', doneClosed := True\<rparr>"
  have cl: "Close testX d0 = Ok (None, d)"
    by (simp add: d0_def d_def Close_eq tryFlush_def trailer_def testX_def testDW_def)
  have h: "buildHeader testX d = ''<?xml?><worksheet xmlns=\"m\"<sheetData>''"
    by (simp add: d_def testX_header)
  have f: "\<not> bytesWritten d > 0" "succeeds 2 (testSink [])" "received (testSink []) = []"
    "buf d = ''<row r=\"1\"></row></sheetData></worksheet>''"
    by (simp_all add: d_def testDW_def testSink_def succeeds_def)
  have g: "doneClosed (closedDW 8)" "bytesWritten (closedDW 8) > 0"
    by (simp_all add: closedDW_def)
  note t1 = WriteTo_after_Close [of testX d0 d d "testSink []"]
  note t2 = WriteTo_after_Close [of testX d0 d "closedDW 8" "testSink []"]
  have r1: "doneClosed d" using t1 cl by blast
  have r2: "\<exists>w'. WriteTo testX d (testSink []) = Replayed 79 None w' \<and>
         received w' =
           ''<?xml?><worksheet xmlns=\"m\"<sheetData><row r=\"1\"></row></sheetData></worksheet>''"
    using t1 [THEN conjunct2, rule_format, OF r1, THEN conjunct2, THEN conjunct2, rule_format,
        OF conjI [OF f(1) f(2)]]
    by (simp add: h f)
  have r3: "WriteTo testX (closedDW 8) (testSink []) =
              Replayed 0 (Some WriteToAfterFlush) (testSink [])"
    using t2 g by blast
  show ?thesis
    unfolding d0_def [symmetric] d_def [symmetric]
    using cl r1 r2 r3 g by blast
qed

section \<open>The attributes of a cell\<close>

text \<open>
  What the newest \<^verbatim>\<open>appendCellNoRef\<close> appends: the attributes in the order \<^verbatim>\<open>xml:space\<close>,
  \<^verbatim>\<open>s\<close>, \<^verbatim>\<open>t\<close>, each under its own condition (the whitespace attribute when its value is
  set, the style when it is not 0, the type when it is not empty), then the formula child
  when there is a formula and the value child when the value text is not empty.
\<close>

lemma appendCellNoRef_text:
  "appendCellNoRef X dst c =
     dst @ ''<c'' @
     (if AttrValue (cXMLSpace c) \<noteq> []
      then '' xml:'' @ NameLocal (cXMLSpace c) @ ''=\"'' @ AttrValue (cXMLSpace c) @ ''\"'' else []) @
     (if cS c \<noteq> 0 then '' s=\"'' @ FormatInt (cS c) @ ''\"'' else []) @
     (if cT c \<noteq> [] then '' t=\"'' @ cT c @ ''\"'' else []) @
     ''>'' @
     (case cF c of Some content \<Rightarrow> ''<f>'' @ escaped X content True @ ''</f>'' | None \<Rightarrow> []) @
     (if cV c \<noteq> [] then ''<v>'' @ escaped X (cV c) True @ ''</v>'' else []) @
     ''</c>''"
  by (simp add: appendCellNoRef_def Let_def AppendInt_def appendEscapedString_def
           split: option.splits)

text \<open>
  Claim C6 fails on \<^verbatim>\<open>appendCellNoRef\<close> of \<^verbatim>\<open>src/direct.go\<close>. The cell of
  \<^verbatim>\<open>BenchmarkAddRow\<close>, with style 1 and the string \<open>foo\<close>, gets no style attribute there,
  while the newest variant writes \<^verbatim>\<open>s="1"\<close>; and the whitespace attribute of the cell
  \<open>''bar ''\<close> is written with a quotation mark after \<^verbatim>\<open>xml:\<close>.
\<close>

theorem appendCellNoRef_direct_go_style_1:
  "appendCellNoRef_direct_go testX []
     \<lparr>cXMLSpace = \<lparr>NameLocal = [], AttrValue = []\<rparr>, cS = 1, cT = ''str'', cF = None,
      cV = ''foo''\<rparr> = ''<c t=\"str\"><v>foo</v></c>'' \<and>
   appendCellNoRef testX []
     \<lparr>cXMLSpace = \<lparr>NameLocal = [], AttrValue = []\<rparr>, cS = 1, cT = ''str'', cF = None,
      cV = ''foo''\<rparr> = ''<c s=\"1\" t=\"str\"><v>foo</v></c>'' \<and>
   appendCellNoRef_direct_go testX []
     \<lparr>cXMLSpace = \<lparr>NameLocal = ''space'', AttrValue = ''preserve''\<rparr>, cS = 0, cT = ''str'',
      cF = None, cV = ''bar ''\<rparr> = ''<c xml:\"space=\"preserve\" t=\"str\"><v>bar </v></c>'' \<and>
   appendCellNoRef testX []
     \<lparr>cXMLSpace = \<lparr>NameLocal = ''space'', AttrValue = ''preserve''\<rparr>, cS = 0, cT = ''str'',
      cF = None, cV = ''bar ''\<rparr> = ''<c xml:space=\"preserve\" t=\"str\"><v>bar </v></c>''"
  by code_simp

section \<open>Row numbers\<close>

lemma digit_val_digit: "d < 10 \<Longrightarrow> digit_val (digit d) = d"
proof -
  assume "d < 10"
  then have "d \<in> {0, 1, 2, 3, 4, 5, 6, 7, 8, 9}" by auto
  then show ?thesis by (auto simp: digit_def digit_val_def)
qed

lemma ParseUint_FormatUint: "ParseUint (FormatUint n) = n"
proof (induction n rule: FormatUint.induct)
  case (1 n)
  show ?case
  proof (cases "n < 10")
    case True
    then show ?thesis
      by (subst FormatUint.simps) (simp add: ParseUint_def digit_val_digit)
  next
    case False
    with "1" have "ParseUint (FormatUint (n div 10)) = n div 10" by simp
    with False show ?thesis
      by (subst FormatUint.simps) (simp add: ParseUint_def digit_val_digit)
  qed
qed

lemma FormatInt_inj: "0 \<le> i \<Longrightarrow> 0 \<le> j \<Longrightarrow> FormatInt i = FormatInt j \<Longrightarrow> i = j"
proof -
  assume a: "0 \<le> i" "0 \<le> j" "FormatInt i = FormatInt j"
  then have "FormatUint (nat i) = FormatUint (nat j)" by (simp add: FormatInt_def)
  then have "ParseUint (FormatUint (nat i)) = ParseUint (FormatUint (nat j))" by simp
  then show "i = j" using a by (simp add: ParseUint_FormatUint)
qed


lemma tryFlush_keeps:
  assumes "tryFlush X d = Ok (e, d')"
  shows "rowCount d' = rowCount d \<and> cols d' = cols d \<and> worksheet d' = worksheet d \<and>
         waitMode d' = waitMode d \<and> doneClosed d' = doneClosed d \<and>
         maxBufferSize d' = maxBufferSize d"
  using assms
  by (auto simp: tryFlush_def flushBuffer_def Let_def
           split: if_splits option.splits prod.splits)

lemma emitted_eq:
  "emitted X dw vals opts = [(incr X (rowCount dw), rowText X (incr X (rowCount dw)) vals opts)]"
proof -
  obtain m where "AddRow_row X dw vals opts =
         Ok (rowError X vals opts,
             dw\<lparr>rowCount := incr X (rowCount dw), maxColLengths := m,
                buf := buf dw @ rowText X (incr X (rowCount dw)) vals opts\<rparr>)"
    by (rule AddRow_row_cases)
  then show ?thesis by (simp add: emitted_def)
qed

lemma AddRow_rowCount:
  assumes "AddRow X dw vals opts = Ok (r, dw')"
  shows "rowCount dw' = incr X (rowCount dw)"
proof -
  obtain m where r: "AddRow_row X dw vals opts =
         Ok (rowError X vals opts,
             dw\<lparr>rowCount := incr X (rowCount dw), maxColLengths := m,
                buf := buf dw @ rowText X (incr X (rowCount dw)) vals opts\<rparr>)"
    by (rule AddRow_row_cases)
  show ?thesis
    using assms r
    by (auto simp: AddRow_def split: option.splits if_splits result.splits prod.splits
             dest: tryFlush_keeps)
qed

lemma SetColWidth_rowCount: "rowCount (snd (SetColWidth X dw mn mx width)) = rowCount dw"
  by (simp add: SetColWidth_def Let_def split: prod.splits)

lemma SetWait_rowCount: "rowCount (snd (SetWait dw b)) = rowCount dw"
  by (simp add: SetWait_def)

lemma Close_rowCount: "Close X dw = Ok (e, dw') \<Longrightarrow> rowCount dw' = rowCount dw"
  by (auto simp: Close_eq split: result.splits option.splits if_splits prod.splits
           dest: tryFlush_keeps)

lemma WriteTo_rowCount: "WriteTo X dw w = Attached dw' \<Longrightarrow> rowCount dw' = rowCount dw"
  by (auto simp: WriteTo_def split: if_splits prod.splits option.splits)

text \<open>The log of a run lists the rows of its \<^verbatim>\<open>AddRow\<close> calls with consecutive numbers.\<close>

lemma run_log:
  "run X dw calls = Ok (log, dw') \<Longrightarrow>
   log = rowsFrom X (rowCount dw) (addRowArgs calls) \<and>
   rowCount dw' = (incr X ^^ length (addRowArgs calls)) (rowCount dw)"
proof (induction X dw calls arbitrary: log dw' rule: run.induct)
  case (1 X dw)
  then show ?case by simp
next
  case (2 X dw mn mx width calls)
  then show ?case by (simp add: SetColWidth_rowCount)
next
  case (3 X dw b calls)
  then show ?case by (simp add: SetWait_rowCount)
next
  case (4 X dw vals opts calls)
  from "4.prems" obtain r d1 l1 where
    a: "AddRow X dw vals opts = Ok (r, d1)" and
    b: "run X d1 calls = Ok (l1, dw')" and
    c: "log = emitted X dw vals opts @ l1"
    by (auto split: result.splits prod.splits)
  from "4.IH" [OF a refl b] AddRow_rowCount [OF a] c
  show ?case by (simp add: emitted_eq funpow_swap1)
next
  case (5 X dw w calls)
  show ?case
  proof (cases "WriteTo X dw w")
    case (Attached d1)
    with "5.prems" "5.IH"(2) [OF Attached] WriteTo_rowCount [OF Attached]
    show ?thesis by simp
  next
    case (Replayed n e w')
    with "5.prems" "5.IH"(1) show ?thesis by simp
  next
    case LockBlocked
    with "5.prems" "5.IH"(3) show ?thesis by simp
  qed
next
  case (6 X dw calls)
  from "6.prems" obtain e d1 where
    a: "Close X dw = Ok (e, d1)" and b: "run X d1 calls = Ok (log, dw')"
    by (auto split: result.splits prod.splits)
  from "6.IH" [OF a refl b] Close_rowCount [OF a] show ?case by simp
qed

lemma rowsFrom_length: "length (rowsFrom X n rows) = length rows"
  by (induction X n rows rule: rowsFrom.induct) simp_all

text \<open>
  As long as the counter stays below \<open>2 ^ (intSize - 1)\<close>, the increments add up and the
  rows are numbered consecutively.
\<close>

lemma incr_funpow:
  "0 \<le> n \<Longrightarrow> n + int k < 2 ^ (intSize X - 1) \<Longrightarrow> (incr X ^^ k) n = n + int k"
proof (induction k)
  case 0
  then show ?case by simp
next
  case (Suc k)
  then have "(incr X ^^ k) n = n + int k" by simp
  moreover have "incr X (n + int k) = n + int k + 1"
    using Suc.prems by (intro incr_small) simp_all
  ultimately show ?case by simp
qed

lemma rowsFrom_nth:
  "k < length rows \<Longrightarrow> 0 \<le> n \<Longrightarrow> n + int (length rows) < 2 ^ (intSize X - 1) \<Longrightarrow>
   rowsFrom X n rows ! k =
     (n + int k + 1, rowText X (n + int k + 1) (fst (rows ! k)) (snd (rows ! k)))"
proof (induction X n rows arbitrary: k rule: rowsFrom.induct)
  case (1 X n)
  then show ?case by simp
next
  case (2 X n vals opts rows)
  have i: "incr X n = n + 1"
    using "2.prems" by (intro incr_small) simp_all
  show ?case
  proof (cases k)
    case 0
    then show ?thesis by (simp add: i)
  next
    case (Suc j)
    with "2.prems" have "j < length rows" "0 \<le> incr X n"
      "incr X n + int (length rows) < 2 ^ (intSize X - 1)"
      by (simp_all add: i)
    from "2.IH" [OF this] Suc show ?thesis by (simp add: i add.assoc add.commute)
  qed
qed

text \<open>
  The bound is needed: when \<^verbatim>\<open>rowCount\<close> is the largest value of \<^verbatim>\<open>int\<close>, the next row is
  numbered with the smallest one.
\<close>

lemma emitted_wraps:
  assumes "0 < intSize X" and "rowCount dw = 2 ^ (intSize X - 1) - 1"
  shows "emitted X dw vals opts =
           [(- (2 ^ (intSize X - 1)), rowText X (- (2 ^ (intSize X - 1))) vals opts)]"
  using incr_wraps [OF assms(1)] assms(2) by (simp add: emitted_eq)

lemma rowText_start:
  "\<exists>rest. rowText X n vals opts = ''<row r=\"'' @ FormatInt n @ ''\"'' @ rest"
  by (simp add: rowText_def)

text \<open>
  Claim C1. Take a writer as \<^verbatim>\<open>NewDirectWriter\<close> returns it and any run of calls on it that
  return: \<^verbatim>\<open>AddRow\<close> calls mixed with any other calls, with any sink, threshold and wait
  mode, so with flushes at any time. Let the number \<open>N\<close> of \<^verbatim>\<open>AddRow\<close> calls be in the range
  of Go's \<^verbatim>\<open>int\<close>: \<open>N < 2 ^ (intSize - 1)\<close>, that is \<open>N \<le> 2^63 - 1\<close> on a 64-bit platform
  and \<open>N \<le> 2^31 - 1\<close> on a 32-bit one. Then the log of the run has one entry per \<^verbatim>\<open>AddRow\<close>
  call, in call order; the \<open>k\<close>-th entry (from 0) was emitted with \<^verbatim>\<open>rowCount = k + 1\<close>, and
  the bytes the call appended to the buffer start with \<^verbatim>\<open><row r="\<close>, the decimal numeral of
  that \<^verbatim>\<open>rowCount\<close> and a quotation mark. The numerals of different rows differ, and the
  final \<^verbatim>\<open>rowCount\<close> is the number of rows.
\<close>

theorem row_numbers:
  assumes "NewDirectWriter sheet maxBufSize sheetID wsRead path = Inr dw"
    and "run X dw calls = Ok (log, dw')"
    and "int (length (addRowArgs calls)) < 2 ^ (intSize X - 1)"
  shows "length log = length (addRowArgs calls) \<and> rowCount dw' = int (length log) \<and>
         (\<forall>k < length log.
            fst (log ! k) = int k + 1 \<and>
            (\<exists>rest. snd (log ! k) = ''<row r=\"'' @ FormatInt (fst (log ! k)) @ ''\"'' @ rest)) \<and>
         (\<forall>j < length log. \<forall>k < length log.
            FormatInt (fst (log ! j)) = FormatInt (fst (log ! k)) \<longrightarrow> j = k)"
proof -
  have z: "rowCount dw = 0"
    using assms(1) by (auto simp: NewDirectWriter_def split: if_splits sum.splits)
  from run_log [OF assms(2)] z have
    l: "log = rowsFrom X 0 (addRowArgs calls)" and
    n': "rowCount dw' = (incr X ^^ length (addRowArgs calls)) 0" by simp_all
  have n: "rowCount dw' = int (length (addRowArgs calls))"
    using incr_funpow [of 0 "length (addRowArgs calls)" X] assms(3) by (simp add: n')
  have len: "length log = length (addRowArgs calls)" by (simp add: l rowsFrom_length)
  have nth: "log ! k = (int k + 1, rowText X (int k + 1) (fst (addRowArgs calls ! k))
                                     (snd (addRowArgs calls ! k)))"
    if "k < length log" for k
    using that len rowsFrom_nth [of k "addRowArgs calls" 0 X] assms(3) by (simp add: l)
  have a: "fst (log ! k) = int k + 1 \<and>
           (\<exists>rest. snd (log ! k) = ''<row r=\"'' @ FormatInt (fst (log ! k)) @ ''\"'' @ rest)"
    if "k < length log" for k
    using nth [OF that] rowText_start [of X "int k + 1"] by simp
  have b: "j = k"
    if "j < length log" "k < length log" "FormatInt (fst (log ! j)) = FormatInt (fst (log ! k))"
    for j k
    using that nth [of j] nth [of k] FormatInt_inj [of "int j + 1" "int k + 1"] by simp
  have c: "rowCount dw' = int (length log)" using n len by simp
  have a': "\<forall>k < length log.
            fst (log ! k) = int k + 1 \<and>
            (\<exists>rest. snd (log ! k) = ''<row r=\"'' @ FormatInt (fst (log ! k)) @ ''\"'' @ rest)"
    using a by (intro allI impI)
  have b': "\<forall>j < length log. \<forall>k < length log.
            FormatInt (fst (log ! j)) = FormatInt (fst (log ! k)) \<longrightarrow> j = k"
    using b by (intro allI impI)
  show ?thesis by (intro conjI) (rule len, rule c, rule a', rule b')
qed

theorem row_numbers_witness:
  "NewDirectWriter ''Sheet1'' 8 1 (Inr ()) ''xl/worksheets/sheet1.xml'' = Inr (testDW 8) \<and>
   int (length (addRowArgs
     [CallAddRow [cell 0 (TStr ''foo'')] [], CallWriteTo (testSink []),
      CallAddRow [cell 0 (TStr ''foo'')] [], CallAddRow [cell 0 (TStr ''foo'')] []])) <
     2 ^ (intSize testX - 1) \<and>
   run testX (testDW 8)
     [CallAddRow [cell 0 (TStr ''foo'')] [], CallWriteTo (testSink []),
      CallAddRow [cell 0 (TStr ''foo'')] [], CallAddRow [cell 0 (TStr ''foo'')] []] =
     Ok ([(1, ''<row r=\"1\"><c t=\"str\"><v>foo</v></c></row>''),
          (2, ''<row r=\"2\"><c t=\"str\"><v>foo</v></c></row>''),
          (3, ''<row r=\"3\"><c t=\"str\"><v>foo</v></c></row>'')],
         (testDW 8)\<lparr>bytesWritten := 164,
           out := Some \<lparr>received =
                         ''<?xml?><worksheet xmlns=\"m\"<sheetData>'' @
                         ''<row r=\"1\"><c t=\"str\"><v>foo</v></c></row>'' @
                         ''<row r=\"2\"><c t=\"str\"><v>foo</v></c></row>'' @
                         ''<row r=\"3\"><c t=\"str\"><v>foo</v></c></row>'',
                       script = []\<rparr>,
           rowCount := 3, maxColLengths := [3]\<rparr>) \<and>
   rowCount ((testDW 8)\<lparr>bytesWritten := 164,
           out := Some \<lparr>received =
                         ''<?xml?><worksheet xmlns=\"m\"<sheetData>'' @
                         ''<row r=\"1\"><c t=\"str\"><v>foo</v></c></row>'' @
                         ''<row r=\"2\"><c t=\"str\"><v>foo</v></c></row>'' @
                         ''<row r=\"3\"><c t=\"str\"><v>foo</v></c></row>'',
                       script = []\<rparr>,
           rowCount := 3, maxColLengths := [3]\<rparr>) = 3"
proof -
  have a: "NewDirectWriter ''Sheet1'' 8 1 (Inr ()) ''xl/worksheets/sheet1.xml'' = Inr (testDW 8)"
    by (simp add: NewDirectWriter_def testDW_def)
  have b: "run testX (testDW 8)
     [CallAddRow [cell 0 (TStr ''foo'')] [], CallWriteTo (testSink []),
      CallAddRow [cell 0 (TStr ''foo'')] [], CallAddRow [cell 0 (TStr ''foo'')] []] =
     Ok ([(1, ''<row r=\"1\"><c t=\"str\"><v>foo</v></c></row>''),
          (2, ''<row r=\"2\"><c t=\"str\"><v>foo</v></c></row>''),
          (3, ''<row r=\"3\"><c t=\"str\"><v>foo</v></c></row>'')],
         (testDW 8)\<lparr>bytesWritten := 164,
           out := Some \<lparr>received =
                         ''<?xml?><worksheet xmlns=\"m\"<sheetData>'' @
                         ''<row r=\"1\"><c t=\"str\"><v>foo</v></c></row>'' @
                         ''<row r=\"2\"><c t=\"str\"><v>foo</v></c></row>'' @
                         ''<row r=\"3\"><c t=\"str\"><v>foo</v></c></row>'',
                       script = []\<rparr>,
           rowCount := 3, maxColLengths := [3]\<rparr>)"
    by code_simp
  have c: "int (length (addRowArgs
     [CallAddRow [cell 0 (TStr ''foo'') :: tvalue Cell] ([] :: string list),
      CallWriteTo (testSink []) :: (tvalue, string, int) call,
      CallAddRow [cell 0 (TStr ''foo'')] [], CallAddRow [cell 0 (TStr ''foo'')] []])) <
     2 ^ (intSize testX - 1)"
    by (simp add: testX_def)
  from row_numbers [OF a b c] a b c show ?thesis by simp
qed

section \<open>The header\<close>

lemma tryFlush_started:
  assumes "tryFlush X d = Ok (e, d')" and "0 < bytesWritten d"
  shows "0 < bytesWritten d' \<and> cols d' = cols d"
  using assms
  by (auto simp: tryFlush_def flushBuffer_def Let_def
           split: if_splits option.splits prod.splits)

lemma AddRow_started:
  assumes "AddRow X dw vals opts = Ok (r, dw')" and "0 < bytesWritten dw"
  shows "0 < bytesWritten dw' \<and> cols dw' = cols dw"
proof -
  obtain m where r: "AddRow_row X dw vals opts =
         Ok (rowError X vals opts,
             dw\<lparr>rowCount := incr X (rowCount dw), maxColLengths := m,
                buf := buf dw @ rowText X (incr X (rowCount dw)) vals opts\<rparr>)"
    by (rule AddRow_row_cases)
  let ?d = "dw\<lparr>rowCount := incr X (rowCount dw), maxColLengths := m,
                buf := buf dw @ rowText X (incr X (rowCount dw)) vals opts\<rparr>"
  have s: "0 < bytesWritten ?d" using assms(2) by simp
  show ?thesis
  proof (cases "rowError X vals opts = None \<and> int (length (buf ?d)) > maxBufferSize ?d \<and>
                \<not> waitMode ?d")
    case True
    with assms(1) r obtain e where "tryFlush X ?d = Ok (e, dw')"
      by (auto simp: AddRow_def split: result.splits prod.splits)
    from tryFlush_started [OF this s] show ?thesis by simp
  next
    case False
    with assms r show ?thesis
      by (auto simp: AddRow_def split: option.splits if_splits)
  qed
qed

lemma Close_started:
  assumes "Close X dw = Ok (e, dw')" and "0 < bytesWritten dw"
  shows "0 < bytesWritten dw' \<and> cols dw' = cols dw"
proof -
  let ?d = "dw\<lparr>buf := buf dw @ trailer X dw\<rparr>"
  have s: "0 < bytesWritten ?d" using assms(2) by simp
  from assms(1) obtain e1 d1 where f: "tryFlush X ?d = Ok (e1, d1)"
    and d: "bytesWritten dw' = bytesWritten d1" "cols dw' = cols d1"
    by (auto simp: Close_eq split: result.splits option.splits if_splits prod.splits)
  from tryFlush_started [OF f s] d show ?thesis by simp
qed

lemma SetColWidth_started:
  "0 < bytesWritten dw \<Longrightarrow> SetColWidth X dw mn mx width = (Some ColWidthAfterWrite, dw)"
  by (simp add: SetColWidth_def)

lemma WriteTo_started:
  "WriteTo X dw w = Attached dw' \<Longrightarrow> bytesWritten dw' = bytesWritten dw \<and> cols dw' = cols dw"
  by (auto simp: WriteTo_def split: if_splits prod.splits option.splits)

text \<open>
  Once a byte has been delivered, \<^verbatim>\<open>bytesWritten\<close> stays positive and the column
  directives stay as they are, whatever is called.
\<close>

lemma run_started:
  "run X dw calls = Ok (log, dw') \<Longrightarrow> 0 < bytesWritten dw \<Longrightarrow>
   0 < bytesWritten dw' \<and> cols dw' = cols dw"
proof (induction X dw calls arbitrary: log dw' rule: run.induct)
  case (1 X dw)
  then show ?case by simp
next
  case (2 X dw mn mx width calls)
  then show ?case by (simp add: SetColWidth_started)
next
  case (3 X dw b calls)
  have "bytesWritten (snd (SetWait dw b)) = bytesWritten dw" "cols (snd (SetWait dw b)) = cols dw"
    by (simp_all add: SetWait_def)
  with "3.prems" "3.IH" [of log dw'] show ?case by simp
next
  case (4 X dw vals opts calls)
  from "4.prems" obtain r d1 l1 where
    a: "AddRow X dw vals opts = Ok (r, d1)" and
    b: "run X d1 calls = Ok (l1, dw')"
    by (auto split: result.splits prod.splits)
  from AddRow_started [OF a "4.prems"(2)] "4.IH" [OF a refl b] show ?case by simp
next
  case (5 X dw w calls)
  show ?case
  proof (cases "WriteTo X dw w")
    case (Attached d1)
    with "5.prems" "5.IH"(2) [OF Attached, of log dw'] WriteTo_started [OF Attached]
    show ?thesis by simp
  next
    case (Replayed n e w')
    with "5.prems" "5.IH"(1) show ?thesis by simp
  next
    case LockBlocked
    with "5.prems" "5.IH"(3) show ?thesis by simp
  qed
next
  case (6 X dw calls)
  from "6.prems" obtain e d1 where
    a: "Close X dw = Ok (e, d1)" and b: "run X d1 calls = Ok (log, dw')"
    by (auto split: result.splits prod.splits)
  from Close_started [OF a "6.prems"(2)] "6.IH" [OF a refl b] show ?case by simp
qed

lemma SetColWidth_ok:
  assumes "bytesWritten dw = 0" "1 \<le> mn" "mn \<le> TotalColumns X" "1 \<le> mx" "mx \<le> TotalColumns X"
    "\<not> widthTooLarge X width"
  shows "SetColWidth X dw mn mx width =
           (None, dw\<lparr>cols := cols dw @ ''<col min=\"'' @ FormatInt (min mn mx) @ ''\" max=\"'' @
                      FormatInt (max mn mx) @ ''\" width=\"'' @ formatWidth X width @
                      ''\" customWidth=\"1\"/>''\<rparr>)"
  using assms by (simp add: SetColWidth_def min_def max_def)


text \<open>
  Claim C3. \<^verbatim>\<open>NewDirectWriter\<close> builds and delivers nothing: the new writer has an empty
  buffer, no sink, no column directives and \<^verbatim>\<open>bytesWritten = 0\<close>. A flush that succeeds, on
  a writer with a free mutex, writes to the sink the header, built from the column directives
  of that moment, exactly when \<^verbatim>\<open>bytesWritten\<close> is 0, and then the buffer; afterwards
  \<^verbatim>\<open>bytesWritten\<close> is positive. From then on it stays positive in every run of calls, so no
  later flush writes the header, and the directives cannot change any more: \<^verbatim>\<open>SetColWidth\<close>
  fails. Before that, while \<^verbatim>\<open>bytesWritten\<close> is 0, a valid \<^verbatim>\<open>SetColWidth\<close> appends its
  directive, and the header then holds the \<^verbatim>\<open><cols>\<close> block with it in front of
  \<^verbatim>\<open><sheetData>\<close>.
\<close>

theorem header_at_first_flush:
  "(NewDirectWriter sheet maxBufSize sheetID wsRead path = Inr dn \<longrightarrow>
      buf dn = [] \<and> bytesWritten dn = 0 \<and> out dn = None \<and> cols dn = []) \<and>
   (\<not> locked dw \<and> out dw = Some w \<and> succeeds (writesDue dw) w \<and> 0 \<le> bytesWritten dw \<longrightarrow>
      (\<exists>dw' w'. tryFlush X dw = Ok (None, dw') \<and> out dw' = Some w' \<and>
         received w' =
           received w @ (if bytesWritten dw = 0 then buildHeader X dw else []) @ buf dw \<and>
         0 < bytesWritten dw' \<and> cols dw' = cols dw)) \<and>
   (0 < bytesWritten dw \<and> run X dw calls = Ok (log, dw2) \<longrightarrow>
      0 < bytesWritten dw2 \<and> cols dw2 = cols dw) \<and>
   (0 < bytesWritten dw \<longrightarrow> SetColWidth X dw mn mx width = (Some ColWidthAfterWrite, dw)) \<and>
   (bytesWritten dw = 0 \<and> 1 \<le> mn \<and> mn \<le> TotalColumns X \<and> 1 \<le> mx \<and> mx \<le> TotalColumns X \<and>
    \<not> widthTooLarge X width \<longrightarrow>
      (\<exists>dw'. SetColWidth X dw mn mx width = (None, dw') \<and>
         cols dw' =
           cols dw @ ''<col min=\"'' @ FormatInt (min mn mx) @ ''\" max=\"'' @
           FormatInt (max mn mx) @ ''\" width=\"'' @ formatWidth X width @
           ''\" customWidth=\"1\"/>'' \<and>
         buildHeader X dw' =
           XMLHeader X @ ''<worksheet'' @ templateNamespaceIDMap X @
           bulkFields X (worksheet dw) 2 5 @ ''<cols>'' @ cols dw' @ ''</cols>'' @ ''<sheetData>''))"
proof -
  have a: "buf dn = [] \<and> bytesWritten dn = 0 \<and> out dn = None \<and> cols dn = []"
    if "NewDirectWriter sheet maxBufSize sheetID wsRead path = Inr dn"
    using that by (auto simp: NewDirectWriter_def split: if_splits sum.splits)
  have b: "\<exists>dw' w'. tryFlush X dw = Ok (None, dw') \<and> out dw' = Some w' \<and>
         received w' =
           received w @ (if bytesWritten dw = 0 then buildHeader X dw else []) @ buf dw \<and>
         0 < bytesWritten dw' \<and> cols dw' = cols dw"
    if h: "\<not> locked dw" "out dw = Some w" "succeeds (writesDue dw) w" "0 \<le> bytesWritten dw"
  proof -
    from tryFlush_ok [OF h(1) h(2) h(3), of X] obtain w' where
      f: "tryFlush X dw =
           Ok (None, dw\<lparr>out := Some w',
                  bytesWritten := bytesWritten dw +
                    (if bytesWritten dw = 0 then int (length (buildHeader X dw)) else 0) +
                    int (length (buf dw)),
                  buf := []\<rparr>)"
      and r: "received w' =
           received w @ (if bytesWritten dw = 0 then buildHeader X dw else []) @ buf dw"
      by blast
    have p: "0 < bytesWritten dw +
                    (if bytesWritten dw = 0 then int (length (buildHeader X dw)) else 0) +
                    int (length (buf dw))"
    proof (cases "bytesWritten dw = 0")
      case True
      have "0 < int (length (buildHeader X dw))" using buildHeader_nonempty [of X dw] by linarith
      with True show ?thesis by (simp add: add_pos_nonneg)
    next
      case False
      with h(4) show ?thesis by simp
    qed
    show ?thesis using f r p by simp
  qed
  have c: "0 < bytesWritten dw2 \<and> cols dw2 = cols dw"
    if "0 < bytesWritten dw" "run X dw calls = Ok (log, dw2)"
    using run_started [OF that(2) that(1)] .
  have d: "SetColWidth X dw mn mx width = (Some ColWidthAfterWrite, dw)" if "0 < bytesWritten dw"
    using that by (rule SetColWidth_started)
  have e: "\<exists>dw'. SetColWidth X dw mn mx width = (None, dw') \<and>
         cols dw' =
           cols dw @ ''<col min=\"'' @ FormatInt (min mn mx) @ ''\" max=\"'' @
           FormatInt (max mn mx) @ ''\" width=\"'' @ formatWidth X width @
           ''\" customWidth=\"1\"/>'' \<and>
         buildHeader X dw' =
           XMLHeader X @ ''<worksheet'' @ templateNamespaceIDMap X @
           bulkFields X (worksheet dw) 2 5 @ ''<cols>'' @ cols dw' @ ''</cols>'' @ ''<sheetData>''"
    if "bytesWritten dw = 0" "1 \<le> mn" "mn \<le> TotalColumns X" "1 \<le> mx" "mx \<le> TotalColumns X"
       "\<not> widthTooLarge X width"
    using SetColWidth_ok [OF that] by (simp add: buildHeader_def Let_def)
  show ?thesis
    apply (intro conjI impI)
    using a b c d e by blast+
qed


theorem header_at_first_flush_witness:
  "NewDirectWriter ''Sheet1'' 8 1 (Inr ()) ''xl/worksheets/sheet1.xml'' = Inr (testDW 8) \<and>
   buf (testDW 8) = [] \<and> bytesWritten (testDW 8) = 0 \<and> out (testDW 8) = None \<and>
   (\<exists>d1. SetColWidth testX (testDW 8) 2 1 20 = (None, d1) \<and>
         cols d1 = ''<col min=\"1\" max=\"2\" width=\"20.000000\" customWidth=\"1\"/>'') \<and>
   (\<exists>dw' w'.
      tryFlush testX
        ((testDW 8)\<lparr>cols := ''<col min=\"1\" max=\"2\" width=\"20.000000\" customWidth=\"1\"/>'',
                     buf := ''<row r=\"1\"></row>'', out := Some (testSink [])\<rparr>) =
        Ok (None, dw') \<and>
      out dw' = Some w' \<and>
      received w' =
        ''<?xml?><worksheet xmlns=\"m\"<cols>'' @
        ''<col min=\"1\" max=\"2\" width=\"20.000000\" customWidth=\"1\"/>'' @
        ''</cols><sheetData><row r=\"1\"></row>'' \<and>
      0 < bytesWritten dw') \<and>
   0 < bytesWritten (closedDW 8) \<and>
   SetColWidth testX (closedDW 8) 1 2 20 = (Some ColWidthAfterWrite, closedDW 8) \<and>
   (\<exists>log dw2.
      run testX (closedDW 8) [CallSetColWidth 1 2 20, CallAddRow [cell 0 (TStr ''foo'')] []] =
        Ok (log, dw2) \<and>
      0 < bytesWritten dw2 \<and> cols dw2 = [])"
proof -
  define d2 where "d2 =
    (testDW 8)\<lparr>cols := ''<col min=\"1\" max=\"2\" width=\"20.000000\" customWidth=\"1\"/>'',
                 buf := ''<row r=\"1\"></row>'', out := Some (testSink [])\<rparr>"
  have n: "NewDirectWriter ''Sheet1'' 8 1 (Inr ()) ''xl/worksheets/sheet1.xml'' = Inr (testDW 8)"
    by (simp add: NewDirectWriter_def testDW_def)
  from header_at_first_flush [where dn = "testDW 8", THEN conjunct1, rule_format, OF n]
  have r1: "buf (testDW 8) = [] \<and> bytesWritten (testDW 8) = 0 \<and> out (testDW 8) = None \<and>
            cols (testDW 8) = []" .
  have p: "bytesWritten (testDW 8) = 0 \<and> (1::int) \<le> 2 \<and> 2 \<le> TotalColumns testX \<and> (1::int) \<le> 1 \<and>
           1 \<le> TotalColumns testX \<and> \<not> widthTooLarge testX (20::int)"
    by (simp add: testX_def testDW_def)
  have fw: "formatWidth testX (20::int) = ''20.000000''"
    by (simp add: testX_def FormatInt_small)
  from header_at_first_flush [where X = testX and dw = "testDW 8" and mn = 2 and mx = 1
        and width = 20, THEN conjunct2, THEN conjunct2, THEN conjunct2, THEN conjunct2,
        rule_format, OF p]
  have r2: "\<exists>d1. SetColWidth testX (testDW 8) 2 1 20 = (None, d1) \<and>
         cols d1 = ''<col min=\"1\" max=\"2\" width=\"20.000000\" customWidth=\"1\"/>''"
    using r1 by (simp add: fw FormatInt_small) blast
  have q: "\<not> locked d2 \<and> out d2 = Some (testSink []) \<and> succeeds (writesDue d2) (testSink []) \<and>
           0 \<le> bytesWritten d2"
    by (simp add: d2_def testDW_def succeeds_def testSink_def)
  have h: "buildHeader testX d2 =
        ''<?xml?><worksheet xmlns=\"m\"<cols>'' @
        ''<col min=\"1\" max=\"2\" width=\"20.000000\" customWidth=\"1\"/>'' @
        ''</cols><sheetData>''"
    by (simp add: d2_def buildHeader_def testX_def testDW_def Let_def)
  have v: "bytesWritten d2 = 0" "buf d2 = ''<row r=\"1\"></row>''" "received (testSink []) = []"
    by (simp_all add: d2_def testDW_def testSink_def)
  from header_at_first_flush [where X = testX and dw = d2 and w = "testSink []",
        THEN conjunct2, THEN conjunct1, rule_format, OF q]
  have r3: "\<exists>dw' w'. tryFlush testX d2 = Ok (None, dw') \<and> out dw' = Some w' \<and>
      received w' =
        ''<?xml?><worksheet xmlns=\"m\"<cols>'' @
        ''<col min=\"1\" max=\"2\" width=\"20.000000\" customWidth=\"1\"/>'' @
        ''</cols><sheetData><row r=\"1\"></row>'' \<and>
      0 < bytesWritten dw'"
    by (simp add: h v) blast
  have s: "0 < bytesWritten (closedDW 8)" by (simp add: closedDW_def)
  from header_at_first_flush [where X = testX and dw = "closedDW 8" and mn = 1 and mx = 2
        and width = "20::int", THEN conjunct2, THEN conjunct2, THEN conjunct2, THEN conjunct1,
        rule_format, OF s]
  have r4: "SetColWidth testX (closedDW 8) 1 2 20 = (Some ColWidthAfterWrite, closedDW 8)" .
  have ru: "run testX (closedDW 8)
              [CallSetColWidth 1 2 20, CallAddRow [cell 0 (TStr ''foo'')] []] =
      Ok ([(2, ''<row r=\"2\"><c t=\"str\"><v>foo</v></c></row>'')],
          (closedDW 8)\<lparr>bytesWritten := 146,
             out := Some \<lparr>received =
                      ''<?xml?><worksheet xmlns=\"m\"<sheetData>'' @
                      ''<row r=\"1\"><c t=\"str\"><v>foo</v></c></row>'' @
                      ''</sheetData></worksheet>'' @
                      ''<row r=\"2\"><c t=\"str\"><v>foo</v></c></row>'',
                    script = []\<rparr>,
             rowCount := 2\<rparr>)"
    by code_simp
  have cc: "cols (closedDW 8) = []" by (simp add: closedDW_def testDW_def)
  from header_at_first_flush [where X = testX and dw = "closedDW 8", THEN conjunct2,
        THEN conjunct2, THEN conjunct1, rule_format, OF conjI [OF s ru]] cc ru
  have r5: "\<exists>log dw2.
      run testX (closedDW 8) [CallSetColWidth 1 2 20, CallAddRow [cell 0 (TStr ''foo'')] []] =
        Ok (log, dw2) \<and>
      0 < bytesWritten dw2 \<and> cols dw2 = []"
    by simp
  show ?thesis
    unfolding d2_def [symmetric]
    using n r1 r2 r3 s r4 r5 by blast
qed

section \<open>Streaming and replay\<close>

lemma streamsI:
  assumes "\<not> locked a" "\<not> locked b" "out b = None" "bytesWritten b = 0" "0 \<le> bytesWritten a"
    "cols a = cols b" "worksheet a = worksheet b" "rowCount a = rowCount b"
    "waitMode a = waitMode b" "doneClosed a = doneClosed b" "out a = Some w" "reliable w"
    "int (length (received w)) = int (length r0) + bytesWritten a"
    "received w @ (if bytesWritten a = 0 then buildHeader X a else []) @ buf a =
       r0 @ buildHeader X b @ buf b"
  shows "streams X r0 a b"
  unfolding streams_def using assms by (simp del: append_assoc)

lemma streamsD:
  assumes "streams X r0 a b"
  obtains w where
    "\<not> locked a" "\<not> locked b" "out b = None" "bytesWritten b = 0" "0 \<le> bytesWritten a"
    "cols a = cols b" "worksheet a = worksheet b" "rowCount a = rowCount b"
    "waitMode a = waitMode b" "doneClosed a = doneClosed b" "out a = Some w" "reliable w"
    "int (length (received w)) = int (length r0) + bytesWritten a"
    "received w @ (if bytesWritten a = 0 then buildHeader X a else []) @ buf a =
       r0 @ buildHeader X b @ buf b"
    "buildHeader X a = buildHeader X b" "trailer X a = trailer X b"
proof -
  from assms obtain w where
    s: "\<not> locked a" "\<not> locked b" "out b = None" "bytesWritten b = 0" "0 \<le> bytesWritten a"
       "cols a = cols b" "worksheet a = worksheet b" "rowCount a = rowCount b"
       "waitMode a = waitMode b" "doneClosed a = doneClosed b" "out a = Some w" "reliable w"
       "int (length (received w)) = int (length r0) + bytesWritten a"
       "received w @ (if bytesWritten a = 0 then buildHeader X a else []) @ buf a =
          r0 @ buildHeader X b @ buf b"
    unfolding streams_def by (cases "out a") (simp_all del: append_assoc)
  have "buildHeader X a = buildHeader X b" "trailer X a = trailer X b"
    using s(6,7) by (simp_all add: buildHeader_def trailer_def Let_def)
  with s show ?thesis by (rule that)
qed

text \<open>
  Appending the same bytes to both buffers keeps the relation, and so does a flush of the
  streaming writer.
\<close>

lemma streams_append:
  assumes "streams X r0 a b"
  shows "streams X r0 (a\<lparr>rowCount := n, maxColLengths := ma, buf := buf a @ t\<rparr>)
                      (b\<lparr>rowCount := n, maxColLengths := mb, buf := buf b @ t\<rparr>)"
proof -
  from assms obtain w where
    s: "\<not> locked a" "\<not> locked b" "out b = None" "bytesWritten b = 0" "0 \<le> bytesWritten a"
       "cols a = cols b" "worksheet a = worksheet b" "rowCount a = rowCount b"
       "waitMode a = waitMode b" "doneClosed a = doneClosed b" "out a = Some w" "reliable w"
       "int (length (received w)) = int (length r0) + bytesWritten a"
       "received w @ (if bytesWritten a = 0 then buildHeader X a else []) @ buf a =
          r0 @ buildHeader X b @ buf b"
    by (rule streamsD)
  let ?a = "a\<lparr>rowCount := n, maxColLengths := ma, buf := buf a @ t\<rparr>"
  let ?b = "b\<lparr>rowCount := n, maxColLengths := mb, buf := buf b @ t\<rparr>"
  have "received w @ (if bytesWritten ?a = 0 then buildHeader X ?a else []) @ buf ?a =
        (received w @ (if bytesWritten a = 0 then buildHeader X a else []) @ buf a) @ t"
    by simp
  also have "\<dots> = (r0 @ buildHeader X b @ buf b) @ t" by (simp only: s(14))
  also have "\<dots> = r0 @ buildHeader X ?b @ buf ?b" by simp
  finally have e: "received w @ (if bytesWritten ?a = 0 then buildHeader X ?a else []) @ buf ?a =
        r0 @ buildHeader X ?b @ buf ?b" .
  show ?thesis
    by (rule streamsI [where w = w, OF _ _ _ _ _ _ _ _ _ _ _ _ _ e]) (use s in simp_all)
qed

lemma streams_flush:
  assumes "streams X r0 a b"
  shows "\<exists>a'. tryFlush X a = Ok (None, a') \<and> buf a' = [] \<and> 0 < bytesWritten a' \<and>
              streams X r0 a' b"
proof -
  from assms obtain w where
    s: "\<not> locked a" "\<not> locked b" "out b = None" "bytesWritten b = 0" "0 \<le> bytesWritten a"
       "cols a = cols b" "worksheet a = worksheet b" "rowCount a = rowCount b"
       "waitMode a = waitMode b" "doneClosed a = doneClosed b" "out a = Some w" "reliable w"
       "int (length (received w)) = int (length r0) + bytesWritten a"
       "received w @ (if bytesWritten a = 0 then buildHeader X a else []) @ buf a =
          r0 @ buildHeader X b @ buf b"
    by (rule streamsD)
  from tryFlush_ok [OF s(1) s(11) reliable_succeeds [OF s(12)], of X] obtain w' where
    f: "tryFlush X a =
           Ok (None, a\<lparr>out := Some w',
                  bytesWritten := bytesWritten a +
                    (if bytesWritten a = 0 then int (length (buildHeader X a)) else 0) +
                    int (length (buf a)),
                  buf := []\<rparr>)"
    and r: "received w' =
           received w @ (if bytesWritten a = 0 then buildHeader X a else []) @ buf a"
    and rl: "reliable w'" using s(12) by blast
  let ?a = "a\<lparr>out := Some w',
                  bytesWritten := bytesWritten a +
                    (if bytesWritten a = 0 then int (length (buildHeader X a)) else 0) +
                    int (length (buf a)),
                  buf := []\<rparr>"
  have pos: "0 < bytesWritten ?a"
  proof (cases "bytesWritten a = 0")
    case True
    have "0 < int (length (buildHeader X a))" using buildHeader_nonempty [of X a] by linarith
    with True show ?thesis by (simp add: add_pos_nonneg)
  next
    case False
    with s(5) show ?thesis by simp
  qed
  have len: "int (length (received w')) = int (length r0) + bytesWritten ?a"
    using s(13) by (simp add: r)
  have "received w' @ (if bytesWritten ?a = 0 then buildHeader X ?a else []) @ buf ?a =
        received w'"
    using pos by simp
  also have "\<dots> = r0 @ buildHeader X b @ buf b" by (simp only: r s(14))
  finally have e: "received w' @ (if bytesWritten ?a = 0 then buildHeader X ?a else []) @ buf ?a =
        r0 @ buildHeader X b @ buf b" .
  have "streams X r0 ?a b"
    by (rule streamsI [where w = w', OF _ _ _ _ _ _ _ _ _ _ _ _ _ e]) (use s pos rl len in simp_all)
  with f pos show ?thesis by simp
qed

lemma streams_AddRow:
  assumes "streams X r0 a b"
  shows "\<exists>ra a' rb b'. AddRow X a vals opts = Ok (ra, a') \<and> AddRow X b vals opts = Ok (rb, b') \<and>
           streams X r0 a' b'"
proof -
  from assms have s: "\<not> locked b" "out b = None" "rowCount a = rowCount b"
    by (auto elim: streamsD)
  let ?t = "rowText X (incr X (rowCount b)) vals opts"
  obtain ma where ra: "AddRow_row X a vals opts =
         Ok (rowError X vals opts,
             a\<lparr>rowCount := incr X (rowCount a), maxColLengths := ma,
                buf := buf a @ rowText X (incr X (rowCount a)) vals opts\<rparr>)"
    by (rule AddRow_row_cases)
  obtain mb where rb: "AddRow_row X b vals opts =
         Ok (rowError X vals opts,
             b\<lparr>rowCount := incr X (rowCount b), maxColLengths := mb,
                buf := buf b @ rowText X (incr X (rowCount b)) vals opts\<rparr>)"
    by (rule AddRow_row_cases)
  define a1 where "a1 = a\<lparr>rowCount := incr X (rowCount b), maxColLengths := ma, buf := buf a @ ?t\<rparr>"
  define b1 where "b1 = b\<lparr>rowCount := incr X (rowCount b), maxColLengths := mb, buf := buf b @ ?t\<rparr>"
  have ra': "AddRow_row X a vals opts = Ok (rowError X vals opts, a1)"
    using ra s(3) by (simp add: a1_def)
  have rb': "AddRow_row X b vals opts = Ok (rowError X vals opts, b1)"
    using rb by (simp add: b1_def)
  have s1: "streams X r0 a1 b1"
    unfolding a1_def b1_def using assms by (rule streams_append)
  have fb: "tryFlush X b1 = Ok (None, b1)"
    using s(1,2) by (simp add: tryFlush_no_sink b1_def)
  have Bres: "\<exists>rb. AddRow X b vals opts = Ok (rb, b1)"
    using rb' fb by (cases "rowError X vals opts") (simp_all add: AddRow_def)
  show ?thesis
  proof (cases "rowError X vals opts = None \<and> int (length (buf a1)) > maxBufferSize a1 \<and>
                \<not> waitMode a1")
    case False
    then have "\<exists>ra. AddRow X a vals opts = Ok (ra, a1)"
      using ra' by (cases "rowError X vals opts") (auto simp: AddRow_def)
    with Bres s1 show ?thesis by blast
  next
    case True
    from streams_flush [OF s1] obtain a2 where
      f: "tryFlush X a1 = Ok (None, a2)" and s2: "streams X r0 a2 b1" by blast
    have "AddRow X a vals opts = Ok ((int (length (buf a2)), None), a2)"
      using ra' True f by (simp add: AddRow_def)
    with Bres s2 show ?thesis by blast
  qed
qed

lemma streams_buf:
  assumes "streams X r0 a b"
  shows "streams X r0 (a\<lparr>buf := buf a @ t\<rparr>) (b\<lparr>buf := buf b @ t\<rparr>)"
proof -
  from assms have r: "rowCount a = rowCount b" by (auto elim: streamsD)
  have ea: "a\<lparr>rowCount := rowCount b, maxColLengths := maxColLengths a, buf := buf a @ t\<rparr> =
            a\<lparr>buf := buf a @ t\<rparr>"
    by (simp add: r [symmetric])
  have eb: "b\<lparr>rowCount := rowCount b, maxColLengths := maxColLengths b, buf := buf b @ t\<rparr> =
            b\<lparr>buf := buf b @ t\<rparr>"
    by simp
  from streams_append [OF assms, where n = "rowCount b" and ma = "maxColLengths a"
      and mb = "maxColLengths b" and t = t]
  show ?thesis by (simp only: ea eb)
qed

lemma streams_Close:
  assumes "streams X r0 a b" and "\<not> doneClosed a"
  shows "\<exists>a' w' b'. Close X a = Ok (None, a') \<and> Close X b = Ok (None, b') \<and>
           doneClosed a' \<and> doneClosed b' \<and> out a' = Some w' \<and> bytesWritten b' = 0 \<and>
           received w' = r0 @ buildHeader X b' @ buf b' \<and>
           int (length (received w')) = int (length r0) + bytesWritten a'"
proof -
  from assms have s: "\<not> locked b" "out b = None" "\<not> doneClosed b" "bytesWritten b = 0"
    "trailer X a = trailer X b"
    by (auto elim: streamsD)
  define a1 where "a1 = a\<lparr>buf := buf a @ trailer X a\<rparr>"
  define b1 where "b1 = b\<lparr>buf := buf b @ trailer X b\<rparr>"
  have s1: "streams X r0 a1 b1"
    unfolding a1_def b1_def s(5) using assms(1) by (rule streams_buf)
  from streams_flush [OF s1] obtain a2 where
    f: "tryFlush X a1 = Ok (None, a2)" and e: "buf a2 = []" and p: "0 < bytesWritten a2"
    and s2: "streams X r0 a2 b1" by blast
  from s2 obtain w' where
    t: "out a2 = Some w'" "doneClosed a2 = doneClosed b1"
       "int (length (received w')) = int (length r0) + bytesWritten a2"
       "received w' @ (if bytesWritten a2 = 0 then buildHeader X a2 else []) @ buf a2 =
          r0 @ buildHeader X b1 @ buf b1"
    by (rule streamsD)
  have rec: "received w' = r0 @ buildHeader X b1 @ buf b1"
    using t(4) e p by simp
  have nd: "\<not> doneClosed a2" using t(2) s(3) by (simp add: b1_def)
  have ca: "Close X a = Ok (None, a2\<lparr>doneClosed := True\<rparr>)"
    using f nd by (simp add: Close_eq a1_def)
  have fb: "tryFlush X b1 = Ok (None, b1)"
    using s(1,2) by (simp add: tryFlush_no_sink b1_def)
  have cb: "Close X b = Ok (None, b1\<lparr>doneClosed := True\<rparr>)"
    using fb s(3) by (simp add: Close_eq b1_def)
  show ?thesis
    apply (rule exI [of _ "a2\<lparr>doneClosed := True\<rparr>"])
    apply (rule exI [of _ w'])
    apply (rule exI [of _ "b1\<lparr>doneClosed := True\<rparr>"])
    using ca cb t(1,3) rec s(4) by (simp add: b1_def)
qed

text \<open>
  The same rows and a final \<^verbatim>\<open>Close\<close> on both writers: the sink of the streaming one has
  then received what the other one holds as header and buffer.
\<close>

lemma streams_rows_Close:
  assumes "streams X r0 a b" and "\<not> doneClosed a"
  shows "\<exists>la a' w' lb b'.
           run X a (addRowCalls rows @ [CallClose]) = Ok (la, a') \<and>
           run X b (addRowCalls rows @ [CallClose]) = Ok (lb, b') \<and> la = lb \<and>
           doneClosed a' \<and> doneClosed b' \<and> out a' = Some w' \<and> bytesWritten b' = 0 \<and>
           received w' = r0 @ buildHeader X b' @ buf b' \<and>
           int (length (received w')) = int (length r0) + bytesWritten a'"
  using assms
proof (induction rows arbitrary: a b)
  case Nil
  from streams_Close [OF Nil] obtain a' w' b' where
    "Close X a = Ok (None, a')" "Close X b = Ok (None, b')"
    "doneClosed a'" "doneClosed b'" "out a' = Some w'" "bytesWritten b' = 0"
    "received w' = r0 @ buildHeader X b' @ buf b'"
    "int (length (received w')) = int (length r0) + bytesWritten a'" by blast
  then show ?case by (simp add: addRowCalls_def)
next
  case (Cons row rows)
  obtain vals opts where row: "row = (vals, opts)" by (cases row)
  from streams_AddRow [OF Cons.prems(1), of vals opts] obtain ra a1 rb b1 where
    A: "AddRow X a vals opts = Ok (ra, a1)" and B: "AddRow X b vals opts = Ok (rb, b1)"
    and s1: "streams X r0 a1 b1" by blast
  have rc: "rowCount a = rowCount b" using Cons.prems(1) by (auto elim: streamsD)
  have "doneClosed a1 = doneClosed b1" "doneClosed b = doneClosed a"
    using s1 Cons.prems(1) by (auto elim: streamsD)
  moreover have "doneClosed b1 = doneClosed b"
  proof -
    obtain mb where rb: "AddRow_row X b vals opts =
         Ok (rowError X vals opts,
             b\<lparr>rowCount := incr X (rowCount b), maxColLengths := mb,
                buf := buf b @ rowText X (incr X (rowCount b)) vals opts\<rparr>)"
      by (rule AddRow_row_cases)
    show ?thesis
      using B rb
      by (auto simp: AddRow_def split: option.splits if_splits result.splits prod.splits
               dest: tryFlush_keeps)
  qed
  ultimately have nd: "\<not> doneClosed a1" using Cons.prems(2) by simp
  from Cons.IH [OF s1 nd] obtain la a' w' lb b' where
    r: "run X a1 (addRowCalls rows @ [CallClose]) = Ok (la, a')"
       "run X b1 (addRowCalls rows @ [CallClose]) = Ok (lb, b')" "la = lb"
       "doneClosed a'" "doneClosed b'" "out a' = Some w'" "bytesWritten b' = 0"
       "received w' = r0 @ buildHeader X b' @ buf b'"
       "int (length (received w')) = int (length r0) + bytesWritten a'" by blast
  have em: "emitted X a vals opts = emitted X b vals opts" by (simp add: emitted_eq rc)
  show ?case
    using A B r em by (simp add: addRowCalls_def row)
qed

lemma run_setColWidthCalls:
  "run X dw (setColWidthCalls ws @ rest) = run X (configure X dw ws) rest"
  by (induction ws arbitrary: dw) (auto simp: setColWidthCalls_def configure_def)

lemma SetColWidth_out:
  "snd (SetColWidth X (d\<lparr>out := s\<rparr>) mn mx width) = (snd (SetColWidth X d mn mx width))\<lparr>out := s\<rparr>"
  by (simp add: SetColWidth_def Let_def split: prod.splits)

lemma SetColWidth_cols_only:
  "snd (SetColWidth X d mn mx width) = d\<lparr>cols := cols (snd (SetColWidth X d mn mx width))\<rparr>"
  by (simp add: SetColWidth_def Let_def split: prod.splits)

lemma configure_out: "configure X (d\<lparr>out := s\<rparr>) ws = (configure X d ws)\<lparr>out := s\<rparr>"
  by (induction ws arbitrary: d) (auto simp: configure_def SetColWidth_out)

lemma configure_append: "configure X d (ws1 @ ws2) = configure X (configure X d ws1) ws2"
  by (simp add: configure_def)

lemma configure_cols_only: "configure X d ws = d\<lparr>cols := cols (configure X d ws)\<rparr>"
proof (induction ws arbitrary: d)
  case Nil
  show ?case by (simp add: configure_def)
next
  case (Cons x ws)
  obtain mn mx width where x: "x = (mn, mx, width)" by (cases x)
  let ?d = "snd (SetColWidth X d mn mx width)"
  have c: "configure X d (x # ws) = configure X ?d ws" by (simp add: configure_def x)
  have "configure X ?d ws = ?d\<lparr>cols := cols (configure X ?d ws)\<rparr>" by (rule Cons.IH)
  also have "\<dots> = d\<lparr>cols := cols (configure X ?d ws)\<rparr>"
    by (subst SetColWidth_cols_only) simp
  finally show ?case by (simp add: c)
qed

lemma configure_fields:
  "locked (configure X d ws) = locked d" "out (configure X d ws) = out d"
  "bytesWritten (configure X d ws) = bytesWritten d" "buf (configure X d ws) = buf d"
  "doneClosed (configure X d ws) = doneClosed d" "rowCount (configure X d ws) = rowCount d"
  "waitMode (configure X d ws) = waitMode d" "worksheet (configure X d ws) = worksheet d"
  by (subst configure_cols_only, simp)+

lemma WriteTo_replays:
  assumes "doneClosed dw" and "bytesWritten dw = 0" and "reliable w"
  shows "\<exists>w'. WriteTo X dw w =
               Replayed (int (length (buildHeader X dw) + length (buf dw))) None w' \<and>
             received w' = received w @ buildHeader X dw @ buf dw"
proof -
  from sink_Write_reliable [OF assms(3), of "buildHeader X dw"] obtain w1 where
    w1: "sink_Write w (buildHeader X dw) = ((length (buildHeader X dw), None), w1)"
        "received w1 = received w @ buildHeader X dw" "reliable w1" by blast
  from sink_Write_reliable [OF w1(3), of "buf dw"] obtain w2 where
    w2: "sink_Write w1 (buf dw) = ((length (buf dw), None), w2)"
        "received w2 = received w1 @ buf dw" by blast
  show ?thesis using assms w1 w2 by (intro exI [of _ w2]) (simp add: WriteTo_def)
qed

text \<open>
  Claim C2. Take a new writer, column widths \<open>ws1\<close> and \<open>ws2\<close>, rows and a sink \<open>w\<close> all of
  whose writes succeed. In the first run the sink is attached by \<^verbatim>\<open>WriteTo\<close> before the first
  row (between the \<^verbatim>\<open>SetColWidth\<close> calls of \<open>ws1\<close> and those of \<open>ws2\<close>, either of which may
  be empty), then the rows are added and the writer is closed. In the second run the same
  calls are made without a sink, and \<^verbatim>\<open>WriteTo\<close> is called with \<open>w\<close> after \<^verbatim>\<open>Close\<close>. Both runs
  return, both raise the completion signal, the replay returns no error, and the sink holds
  the same bytes at the end of both; the rows appended are the same, and both \<^verbatim>\<open>WriteTo\<close>
  calls return the same count.
\<close>

theorem streaming_equals_replay:
  fixes X :: "('v, 'o, 'ws, 'f) externals"
  assumes "NewDirectWriter sheet maxBufSize sheetID wsRead path = Inr dw0"
    and "reliable w"
  shows "\<exists>la da wa lb db n wb.
           run X dw0 (setColWidthCalls ws1 @ CallWriteTo w # setColWidthCalls ws2 @
                      addRowCalls rows @ [CallClose]) = Ok (la, da) \<and>
           run X dw0 (setColWidthCalls (ws1 @ ws2) @ addRowCalls rows @ [CallClose]) =
             Ok (lb, db) \<and>
           doneClosed da \<and> doneClosed db \<and> out da = Some wa \<and>
           WriteTo X db w = Replayed n None wb \<and>
           received wa = received wb \<and> la = lb \<and> WriteTo_return da = (n, None)"
proof -
  have z: "\<not> locked dw0" "out dw0 = None" "bytesWritten dw0 = 0" "buf dw0 = []"
    "\<not> doneClosed dw0"
    using assms(1) by (auto simp: NewDirectWriter_def split: if_splits sum.splits)
  define c1 where "c1 = configure X dw0 ws1"
  define b where "b = configure X dw0 (ws1 @ ws2)"
  define a where "a = b\<lparr>out := Some w\<rparr>"
  define rest :: "('v, 'o, 'f) call list" where "rest = addRowCalls rows @ [CallClose]"
  have c1f: "\<not> locked c1" "\<not> doneClosed c1"
    using z by (simp_all add: c1_def configure_fields)
  have bf: "\<not> locked b" "out b = None" "bytesWritten b = 0" "\<not> doneClosed b"
    using z by (simp_all add: b_def configure_fields)
  have at: "WriteTo X c1 w = Attached (c1\<lparr>out := Some w\<rparr>)"
    using c1f by (simp add: WriteTo_def)
  have "run X dw0 (setColWidthCalls ws1 @ CallWriteTo w # setColWidthCalls ws2 @ rest) =
        run X c1 (CallWriteTo w # setColWidthCalls ws2 @ rest)"
    by (simp add: run_setColWidthCalls c1_def)
  also have "\<dots> = run X (c1\<lparr>out := Some w\<rparr>) (setColWidthCalls ws2 @ rest)"
    by (simp add: at)
  also have "\<dots> = run X (configure X (c1\<lparr>out := Some w\<rparr>) ws2) rest"
    by (rule run_setColWidthCalls)
  also have "configure X (c1\<lparr>out := Some w\<rparr>) ws2 = a"
    by (simp add: configure_out a_def b_def c1_def configure_append)
  finally have runA:
    "run X dw0 (setColWidthCalls ws1 @ CallWriteTo w # setColWidthCalls ws2 @ rest) =
     run X a rest" .
  have runB: "run X dw0 (setColWidthCalls (ws1 @ ws2) @ rest) = run X b rest"
    by (simp add: run_setColWidthCalls b_def)
  have e: "received w @ (if bytesWritten a = 0 then buildHeader X a else []) @ buf a =
           received w @ buildHeader X b @ buf b"
    using bf by (simp add: a_def)
  have st: "streams X (received w) a b"
    by (rule streamsI [where w = w, OF _ _ _ _ _ _ _ _ _ _ _ _ _ e])
       (use bf assms(2) in \<open>simp_all add: a_def\<close>)
  have nd: "\<not> doneClosed a" using bf by (simp add: a_def)
  from streams_rows_Close [OF st nd, of rows] obtain la da wa lb db where
    r: "run X a rest = Ok (la, da)" "run X b rest = Ok (lb, db)" "la = lb"
       "doneClosed da" "doneClosed db" "out da = Some wa" "bytesWritten db = 0"
       "received wa = received w @ buildHeader X db @ buf db"
       "int (length (received wa)) = int (length (received w)) + bytesWritten da"
    unfolding rest_def by blast
  from WriteTo_replays [OF r(5) r(7) assms(2), of X] obtain wb where
    wb: "WriteTo X db w =
           Replayed (int (length (buildHeader X db) + length (buf db))) None wb"
        "received wb = received w @ buildHeader X db @ buf db" by blast
  have cnt: "WriteTo_return da = (int (length (buildHeader X db) + length (buf db)), None)"
    using r(8,9) by (simp add: WriteTo_return_def)
  show ?thesis
    unfolding rest_def [symmetric]
    apply (rule exI [of _ la], rule exI [of _ da], rule exI [of _ wa], rule exI [of _ lb],
           rule exI [of _ db],
           rule exI [of _ "int (length (buildHeader X db) + length (buf db))"],
           rule exI [of _ wb])
    using runA runB r wb cnt by simp
qed


theorem streaming_equals_replay_witness:
  "NewDirectWriter ''Sheet1'' 8 1 (Inr ()) ''xl/worksheets/sheet1.xml'' = Inr (testDW 8) \<and>
   reliable (testSink []) \<and>
   (\<exists>la da wa lb db n wb.
      run testX (testDW 8)
        [CallSetColWidth 1 2 20, CallWriteTo (testSink []),
         CallAddRow [cell 0 (TStr ''foo'')] [], CallClose] = Ok (la, da) \<and>
      run testX (testDW 8)
        [CallSetColWidth 1 2 20, CallAddRow [cell 0 (TStr ''foo'')] [], CallClose] = Ok (lb, db) \<and>
      doneClosed da \<and> doneClosed db \<and> out da = Some wa \<and>
      WriteTo testX db (testSink []) = Replayed n None wb \<and>
      received wa = received wb \<and> la = lb \<and> WriteTo_return da = (n, None)) \<and>
   WriteTo testX
     ((testDW 8)\<lparr>cols := ''<col min=\"1\" max=\"2\" width=\"20.000000\" customWidth=\"1\"/>'',
                  buf := ''<row r=\"1\"><c t=\"str\"><v>foo</v></c></row></sheetData></worksheet>'',
                  doneClosed := True, rowCount := 1, maxColLengths := [3]\<rparr>)
     (testSink []) =
     Replayed 173 None
       \<lparr>received =
          ''<?xml?><worksheet xmlns=\"m\"<cols>'' @
          ''<col min=\"1\" max=\"2\" width=\"20.000000\" customWidth=\"1\"/>'' @
          ''</cols><sheetData><row r=\"1\"><c t=\"str\"><v>foo</v></c></row>'' @
          ''</sheetData></worksheet>'',
        script = []\<rparr>"
proof -
  have n: "NewDirectWriter ''Sheet1'' 8 1 (Inr ()) ''xl/worksheets/sheet1.xml'' = Inr (testDW 8)"
    by (simp add: NewDirectWriter_def testDW_def)
  have r: "reliable (testSink [])" by (simp add: reliable_def testSink_def)
  from streaming_equals_replay [OF n r, of testX "[(1, 2, 20)]" "[]"
      "[([cell 0 (TStr ''foo'')], [])]"]
  have e: "\<exists>la da wa lb db n wb.
      run testX (testDW 8)
        [CallSetColWidth 1 2 20, CallWriteTo (testSink []),
         CallAddRow [cell 0 (TStr ''foo'')] [], CallClose] = Ok (la, da) \<and>
      run testX (testDW 8)
        [CallSetColWidth 1 2 20, CallAddRow [cell 0 (TStr ''foo'')] [], CallClose] = Ok (lb, db) \<and>
      doneClosed da \<and> doneClosed db \<and> out da = Some wa \<and>
      WriteTo testX db (testSink []) = Replayed n None wb \<and>
      received wa = received wb \<and> la = lb \<and> WriteTo_return da = (n, None)"
    by (simp add: setColWidthCalls_def addRowCalls_def)
  have c: "WriteTo testX
     ((testDW 8)\<lparr>cols := ''<col min=\"1\" max=\"2\" width=\"20.000000\" customWidth=\"1\"/>'',
                  buf := ''<row r=\"1\"><c t=\"str\"><v>foo</v></c></row></sheetData></worksheet>'',
                  doneClosed := True, rowCount := 1, maxColLengths := [3]\<rparr>)
     (testSink []) =
     Replayed 173 None
       \<lparr>received =
          ''<?xml?><worksheet xmlns=\"m\"<cols>'' @
          ''<col min=\"1\" max=\"2\" width=\"20.000000\" customWidth=\"1\"/>'' @
          ''</cols><sheetData><row r=\"1\"><c t=\"str\"><v>foo</v></c></row>'' @
          ''</sheetData></worksheet>'',
        script = []\<rparr>"
    by code_simp
  from n r e c show ?thesis by (intro conjI)
qed

end
